theory Spec2Isabelle
  imports Main
begin

section \<open>JavaScript values\<close>

text \<open>
  The converters build plain JavaScript objects, arrays and strings. An object is
  modelled by the list of its own properties in the order in which JavaScript
  enumerates them (and in which a serialiser writes them). A property whose value is
  \<open>undefined\<close> (\<open>description: docs\<close> with no docs) is still a property of the
  object, so \<open>undefined\<close> is a value of the model.

  A \<open>string\<close> is a list of 8-bit characters; it is read as a JavaScript string whose
  code units lie in U+0000..U+00FF. The prototype of an object is not part of the
  model: an object is its own properties only, which is what enumerating or
  serialising it shows. The one inherited property that an assignment of the
  converters can meet, the accessor \<open>__proto__\<close> of \<open>Object.prototype\<close>, is part of the
  model of assignment, \<open>assignProperty\<close> below.
\<close>

datatype jsval =
    JUndefined
  | JString string
  | JArray "jsval list"
  | JObject "(string \<times> jsval) list"

type_synonym props = "(string \<times> jsval) list"

definition charCode :: "char \<Rightarrow> nat" where
  "charCode c = of_char c"

definition inRange :: "nat \<Rightarrow> nat \<Rightarrow> char \<Rightarrow> bool" where
  "inRange lo hi c = (lo \<le> charCode c \<and> charCode c \<le> hi)"

definition isDigit :: "char \<Rightarrow> bool" where
  "isDigit c = inRange 48 57 c"

definition decimalValue :: "string \<Rightarrow> int" where
  "decimalValue s = foldl (\<lambda>n c. 10 * n + (int (charCode c) - 48)) 0 s"

text \<open>
  An array index is the canonical decimal form of an integer below \<open>2^32 - 1\<close>.
  JavaScript enumerates the properties whose keys are array indices first, in
  ascending numeric order, and the other string keys after them in creation order.
\<close>

definition isArrayIndex :: "string \<Rightarrow> bool" where
  "isArrayIndex s =
     (s \<noteq> [] \<and> list_all isDigit s \<and> (length s = 1 \<or> hd s \<noteq> CHR ''0'')
      \<and> decimalValue s < 4294967295)"

fun insertIndexKey :: "string \<Rightarrow> jsval \<Rightarrow> props \<Rightarrow> props" where
  "insertIndexKey k v [] = [(k, v)]"
| "insertIndexKey k v ((k', v') # ps) =
     (if isArrayIndex k' \<and> decimalValue k' < decimalValue k
      then (k', v') # insertIndexKey k v ps
      else (k, v) # (k', v') # ps)"

text \<open>
  \<open>setProperty k v ps\<close> is the property list after the own property \<open>k\<close> has been
  defined with the value \<open>v\<close>, as the entry \<open>k: v\<close> or \<open>[k]: v\<close> of an object literal
  does: an existing key keeps its place and takes the new value; a new key is created
  at its place in the enumeration order.
\<close>

definition setProperty :: "string \<Rightarrow> jsval \<Rightarrow> props \<Rightarrow> props" where
  "setProperty k v ps =
     (if k \<in> set (map fst ps)
      then map (\<lambda>(k', v'). (k', if k' = k then v else v')) ps
      else if isArrayIndex k then insertIndexKey k v ps
      else ps @ [(k, v)])"

text \<open>
  \<open>assignProperty k v ps\<close> is the property list after the assignment \<open>obj[k] = v\<close> (or
  \<open>obj.k = v\<close>) to a plain object, one created by \<open>{}\<close> or by an object literal. The
  assignment looks the key up along the prototype chain first. For the key
  \<open>__proto__\<close> it finds the accessor of \<open>Object.prototype\<close> and calls its setter, which
  changes the prototype of the object (to \<open>v\<close>, when \<open>v\<close> is an object) and creates no
  own property: the own properties are what they were. Every other key of the
  converters is either an own property or absent or an inherited writable data
  property, and the assignment defines the own property.
\<close>

definition assignProperty :: "string \<Rightarrow> jsval \<Rightarrow> props \<Rightarrow> props" where
  "assignProperty k v ps = (if k = ''__proto__'' then ps else setProperty k v ps)"

definition getProperty :: "props \<Rightarrow> string \<Rightarrow> jsval option" where
  "getProperty ps k = map_of ps k"

text \<open>\<open>xs.join(sep)\<close> on an array of strings.\<close>

fun join :: "string \<Rightarrow> string list \<Rightarrow> string" where
  "join sep [] = []"
| "join sep [x] = x"
| "join sep (x # y # ys) = x @ sep @ join sep (y # ys)"

section \<open>The lodash functions used by the name resolver\<close>

text \<open>
  Modelled from the spec: \<open>_.camelCase\<close> and \<open>_.upperFirst\<close> are functions of the
  lodash library, which is not part of the sources. The spec describes the derivation
  as: join path segments and leaf name with a space, split on existing word
  boundaries and lower-case, re-join in camel form, capitalise the first letter. The
  definitions below follow lodash 4 on strings of code units U+0000..U+00FF:
  \<open>camelCase(s)\<close> removes the apostrophes from \<open>deburr(s)\<close>, splits the result into
  \<open>words\<close>, lower-cases each word, capitalises every word but the first and
  concatenates them; \<open>words\<close> matches the string against one of two regular expressions.
\<close>

subsection \<open>A backtracking matcher for the regular expressions lodash uses\<close>

datatype rx =
    Cls "char \<Rightarrow> bool"
  | Lit string
  | Seq rx rx
  | Alt rx rx
  | Opt rx
  | Star "char \<Rightarrow> bool"
  | Plus "char \<Rightarrow> bool"
  | Ahead rx
  | NotAhead rx
  | WordB
  | Eos

text \<open>
  A matcher state is the number of characters consumed, the character before the
  current position (for \<open>\b\<close>) and the rest of the input. \<open>rxMatch r st\<close> lists the
  states in which a match of \<open>r\<close> started at \<open>st\<close> can end, in the order in which a
  backtracking matcher tries them (greedy quantifiers first take as much as they can,
  alternatives are tried from the left): the head of the list is the match
  JavaScript reports.
\<close>

type_synonym mstate = "nat \<times> char option \<times> string"

fun litMatch :: "string \<Rightarrow> mstate \<Rightarrow> mstate list" where
  "litMatch [] st = [st]"
| "litMatch (a # as) (n, p, []) = []"
| "litMatch (a # as) (n, p, c # cs) =
     (if a = c then litMatch as (Suc n, Some c, cs) else [])"

fun starMatch :: "(char \<Rightarrow> bool) \<Rightarrow> mstate \<Rightarrow> mstate list" where
  "starMatch P (n, p, []) = [(n, p, [])]"
| "starMatch P (n, p, c # cs) =
     (if P c then starMatch P (Suc n, Some c, cs) @ [(n, p, c # cs)]
      else [(n, p, c # cs)])"

definition isAsciiLower :: "char \<Rightarrow> bool" where
  "isAsciiLower c = inRange 97 122 c"

definition isAsciiUpper :: "char \<Rightarrow> bool" where
  "isAsciiUpper c = inRange 65 90 c"

definition isAsciiLetter :: "char \<Rightarrow> bool" where
  "isAsciiLetter c = (isAsciiLower c \<or> isAsciiUpper c)"

definition isAlnum :: "char \<Rightarrow> bool" where
  "isAlnum c = (isAsciiLetter c \<or> isDigit c)"

definition isWordChar :: "char \<Rightarrow> bool" where
  "isWordChar c = (isAlnum c \<or> c = CHR ''_'')"

definition atWordBoundary :: "char option \<Rightarrow> string \<Rightarrow> bool" where
  "atWordBoundary p s =
     ((case p of None \<Rightarrow> False | Some c \<Rightarrow> isWordChar c) \<noteq>
      (case s of [] \<Rightarrow> False | c # _ \<Rightarrow> isWordChar c))"

fun rxMatch :: "rx \<Rightarrow> mstate \<Rightarrow> mstate list" where
  "rxMatch (Cls P) (n, p, s) =
     (case s of [] \<Rightarrow> [] | c # cs \<Rightarrow> if P c then [(Suc n, Some c, cs)] else [])"
| "rxMatch (Lit w) st = litMatch w st"
| "rxMatch (Seq a b) st = concat (map (rxMatch b) (rxMatch a st))"
| "rxMatch (Alt a b) st = rxMatch a st @ rxMatch b st"
| "rxMatch (Opt a) st = rxMatch a st @ [st]"
| "rxMatch (Star P) st = starMatch P st"
| "rxMatch (Plus P) (n, p, s) =
     (case s of [] \<Rightarrow> [] | c # cs \<Rightarrow> if P c then starMatch P (Suc n, Some c, cs) else [])"
| "rxMatch (Ahead a) st = (if rxMatch a st = [] then [] else [st])"
| "rxMatch (NotAhead a) st = (if rxMatch a st = [] then [st] else [])"
| "rxMatch WordB (n, p, s) = (if atWordBoundary p s then [(n, p, s)] else [])"
| "rxMatch Eos (n, p, s) = (if s = [] then [(n, p, s)] else [])"

text \<open>The length of the match of \<open>r\<close> that starts at the head of \<open>s\<close>, if there is one.\<close>

definition execAt :: "rx \<Rightarrow> char option \<Rightarrow> string \<Rightarrow> nat option" where
  "execAt r p s = (case rxMatch r (0, p, s) of [] \<Rightarrow> None | (n, _, _) # _ \<Rightarrow> Some n)"

text \<open>
  \<open>string.match(/r/g)\<close>: the matches from left to right, each search starting where
  the previous match ended. \<open>skip\<close> counts the characters of the previous match that
  are still to be passed over.
\<close>

fun matchAllFrom :: "rx \<Rightarrow> nat \<Rightarrow> char option \<Rightarrow> string \<Rightarrow> string list" where
  "matchAllFrom r skip p [] = []"
| "matchAllFrom r skip p (c # cs) =
     (if 0 < skip then matchAllFrom r (skip - 1) (Some c) cs
      else (case execAt r p (c # cs) of
              None \<Rightarrow> matchAllFrom r 0 (Some c) cs
            | Some n \<Rightarrow> take n (c # cs) # matchAllFrom r (n - 1) (Some c) cs))"

definition matchAll :: "rx \<Rightarrow> string \<Rightarrow> string list" where
  "matchAll r s = matchAllFrom r 0 None s"

text \<open>\<open>/r/.test(string)\<close>: is there a match starting anywhere in the string.\<close>

fun testFrom :: "rx \<Rightarrow> char option \<Rightarrow> string \<Rightarrow> bool" where
  "testFrom r p [] = (execAt r p [] \<noteq> None)"
| "testFrom r p (c # cs) = (execAt r p (c # cs) \<noteq> None \<or> testFrom r (Some c) cs)"

definition rxTest :: "rx \<Rightarrow> string \<Rightarrow> bool" where
  "rxTest r s = testFrom r None s"

subsection \<open>Character classes of lodash\<close>

text \<open>
  The ranges are those of the lodash source, cut to U+0000..U+00FF:
  \<open>rsLowerRange = a-z\xdf-\xf6\xf8-\xff\<close>, \<open>rsUpperRange = A-Z\xc0-\xd6\xd8-\xde\<close>,
  \<open>rsMathOpRange = \xac\xb1\xd7\xf7\<close>,
  \<open>rsNonCharRange = \x00-\x2f\x3a-\x40\x5b-\x60\x7b-\xbf\<close>, the space characters
  \<open>' ', \t, \x0b, \f, \xa0, \n, \r\<close>, and
  \<open>rsMisc = [^astral break \d + dingbat lower upper]\<close>.
\<close>

definition rsLower :: "char \<Rightarrow> bool" where
  "rsLower c = (inRange 97 122 c \<or> inRange 223 246 c \<or> inRange 248 255 c)"

definition rsUpper :: "char \<Rightarrow> bool" where
  "rsUpper c = (inRange 65 90 c \<or> inRange 192 214 c \<or> inRange 216 222 c)"

definition rsMathOp :: "char \<Rightarrow> bool" where
  "rsMathOp c = (charCode c = 172 \<or> charCode c = 177 \<or> charCode c = 215 \<or> charCode c = 247)"

definition rsNonChar :: "char \<Rightarrow> bool" where
  "rsNonChar c = (inRange 0 47 c \<or> inRange 58 64 c \<or> inRange 91 96 c \<or> inRange 123 191 c)"

definition rsSpace :: "char \<Rightarrow> bool" where
  "rsSpace c = (charCode c = 32 \<or> charCode c = 9 \<or> charCode c = 11 \<or> charCode c = 12
     \<or> charCode c = 160 \<or> charCode c = 10 \<or> charCode c = 13)"

definition rsBreak :: "char \<Rightarrow> bool" where
  "rsBreak c = (rsMathOp c \<or> rsNonChar c \<or> rsSpace c)"

definition rsMisc :: "char \<Rightarrow> bool" where
  "rsMisc c = (\<not> (rsBreak c \<or> isDigit c \<or> c = CHR ''+'' \<or> rsLower c \<or> rsUpper c))"

definition rsMiscLower :: "char \<Rightarrow> bool" where
  "rsMiscLower c = (rsLower c \<or> rsMisc c)"

definition rsMiscUpper :: "char \<Rightarrow> bool" where
  "rsMiscUpper c = (rsUpper c \<or> rsMisc c)"

definition rsApos :: "char \<Rightarrow> bool" where
  "rsApos c = (charCode c = 39)"

subsection \<open>The regular expressions of \<open>words\<close>\<close>

text \<open>\<open>reAsciiWord = /[^\x00-\x2f\x3a-\x40\x5b-\x60\x7b-\x7f]+/g\<close>\<close>

definition asciiWordChar :: "char \<Rightarrow> bool" where
  "asciiWordChar c =
     (\<not> (inRange 0 47 c \<or> inRange 58 64 c \<or> inRange 91 96 c \<or> inRange 123 127 c))"

definition reAsciiWord :: rx where
  "reAsciiWord = Plus asciiWordChar"

text \<open>
  \<open>reHasUnicodeWord =
  /[a-z][A-Z]|[A-Z]{2}[a-z]|[0-9][a-zA-Z]|[a-zA-Z][0-9]|[^a-zA-Z0-9 ]/\<close>
\<close>

definition reHasUnicodeWord :: rx where
  "reHasUnicodeWord =
     Alt (Seq (Cls isAsciiLower) (Cls isAsciiUpper))
    (Alt (Seq (Cls isAsciiUpper) (Seq (Cls isAsciiUpper) (Cls isAsciiLower)))
    (Alt (Seq (Cls isDigit) (Cls isAsciiLetter))
    (Alt (Seq (Cls isAsciiLetter) (Cls isDigit))
         (Cls (\<lambda>c. \<not> (isAlnum c \<or> c = CHR '' ''))))))"

text \<open>
  \<open>rsOptContrLower = (?:rsApos(?:d|ll|m|re|s|t|ve))?\<close> and its upper-case twin;
  \<open>rsApos\<close> is the apostrophe (and U+2019, which lies above U+00FF).
\<close>

definition rsOptContrLower :: rx where
  "rsOptContrLower =
     Opt (Seq (Cls rsApos)
       (Alt (Lit ''d'') (Alt (Lit ''ll'') (Alt (Lit ''m'') (Alt (Lit ''re'')
       (Alt (Lit ''s'') (Alt (Lit ''t'') (Lit ''ve''))))))))"

definition rsOptContrUpper :: rx where
  "rsOptContrUpper =
     Opt (Seq (Cls rsApos)
       (Alt (Lit ''D'') (Alt (Lit ''LL'') (Alt (Lit ''M'') (Alt (Lit ''RE'')
       (Alt (Lit ''S'') (Alt (Lit ''T'') (Lit ''VE''))))))))"

text \<open>
  \<open>rsOrdLower = \d*(?:1st|2nd|3rd|(?![123])\dth)(?=\b|[A-Z_])\<close> and
  \<open>rsOrdUpper = \d*(?:1ST|2ND|3RD|(?![123])\dTH)(?=\b|[a-z_])\<close>.
\<close>

definition is123 :: "char \<Rightarrow> bool" where
  "is123 c = inRange 49 51 c"

definition rsOrdLower :: rx where
  "rsOrdLower =
     Seq (Star isDigit)
    (Seq (Alt (Lit ''1st'') (Alt (Lit ''2nd'') (Alt (Lit ''3rd'')
            (Seq (NotAhead (Cls is123)) (Seq (Cls isDigit) (Lit ''th''))))))
         (Ahead (Alt WordB (Cls (\<lambda>c. isAsciiUpper c \<or> c = CHR ''_'')))))"

definition rsOrdUpper :: rx where
  "rsOrdUpper =
     Seq (Star isDigit)
    (Seq (Alt (Lit ''1ST'') (Alt (Lit ''2ND'') (Alt (Lit ''3RD'')
            (Seq (NotAhead (Cls is123)) (Seq (Cls isDigit) (Lit ''TH''))))))
         (Ahead (Alt WordB (Cls (\<lambda>c. isAsciiLower c \<or> c = CHR ''_'')))))"

text \<open>
  \<open>reUnicodeWord\<close> is the alternation, in this order, of
  \<^item> \<open>rsUpper? rsLower+ rsOptContrLower (?=rsBreak|rsUpper|$)\<close>
  \<^item> \<open>rsMiscUpper+ rsOptContrUpper (?=rsBreak|rsUpper rsMiscLower|$)\<close>
  \<^item> \<open>rsUpper? rsMiscLower+ rsOptContrLower\<close>
  \<^item> \<open>rsUpper+ rsOptContrUpper\<close>
  \<^item> \<open>rsOrdUpper\<close>, \<open>rsOrdLower\<close>, \<open>\d+\<close>
  \<^item> \<open>rsEmoji\<close>, which only matches code units above U+00FF and is left out.
\<close>

definition reUnicodeWord :: rx where
  "reUnicodeWord =
     Alt (Seq (Opt (Cls rsUpper)) (Seq (Plus rsLower) (Seq rsOptContrLower
            (Ahead (Alt (Cls rsBreak) (Alt (Cls rsUpper) Eos))))))
    (Alt (Seq (Plus rsMiscUpper) (Seq rsOptContrUpper
            (Ahead (Alt (Cls rsBreak) (Alt (Seq (Cls rsUpper) (Cls rsMiscLower)) Eos)))))
    (Alt (Seq (Opt (Cls rsUpper)) (Seq (Plus rsMiscLower) rsOptContrLower))
    (Alt (Seq (Plus rsUpper) rsOptContrUpper)
    (Alt rsOrdUpper
    (Alt rsOrdLower
         (Plus isDigit))))))"

definition hasUnicodeWord :: "string \<Rightarrow> bool" where
  "hasUnicodeWord s = rxTest reHasUnicodeWord s"

definition asciiWords :: "string \<Rightarrow> string list" where
  "asciiWords s = matchAll reAsciiWord s"

definition unicodeWords :: "string \<Rightarrow> string list" where
  "unicodeWords s = matchAll reUnicodeWord s"

definition words :: "string \<Rightarrow> string list" where
  "words s = (if hasUnicodeWord s then unicodeWords s else asciiWords s)"

subsection \<open>\<open>deburr\<close>, case conversion, \<open>camelCase\<close> and \<open>upperFirst\<close>\<close>

text \<open>
  \<open>deburr\<close> replaces each Latin-1 Supplement letter (\<open>[\xc0-\xd6\xd8-\xf6\xf8-\xff]\<close>)
  by its basic Latin letters, after the table \<open>deburredLetters\<close>; the combining marks
  it also removes lie above U+00FF.
\<close>

definition deburrLetter :: "char \<Rightarrow> string" where
  "deburrLetter c =
     (if inRange 192 197 c then ''A'' else if charCode c = 198 then ''Ae''
      else if charCode c = 199 then ''C'' else if inRange 200 203 c then ''E''
      else if inRange 204 207 c then ''I'' else if charCode c = 208 then ''D''
      else if charCode c = 209 then ''N'' else if inRange 210 214 c then ''O''
      else if charCode c = 216 then ''O'' else if inRange 217 220 c then ''U''
      else if charCode c = 221 then ''Y'' else if charCode c = 222 then ''Th''
      else if charCode c = 223 then ''ss'' else if inRange 224 229 c then ''a''
      else if charCode c = 230 then ''ae'' else if charCode c = 231 then ''c''
      else if inRange 232 235 c then ''e'' else if inRange 236 239 c then ''i''
      else if charCode c = 240 then ''d'' else if charCode c = 241 then ''n''
      else if inRange 242 246 c then ''o'' else if charCode c = 248 then ''o''
      else if inRange 249 252 c then ''u'' else if charCode c = 253 then ''y''
      else if charCode c = 254 then ''th'' else if charCode c = 255 then ''y''
      else [c])"

definition deburr :: "string \<Rightarrow> string" where
  "deburr s = concat (map deburrLetter s)"

text \<open>
  Case conversion of one code unit. \<open>toLowerCase\<close> maps \<open>A-Z\<close> and the upper-case
  Latin-1 letters 32 places up. \<open>toUpperCase\<close> maps \<open>a-z\<close> and the lower-case Latin-1
  letters 32 places down and \<open>\xdf\<close> to \<open>SS\<close>; the upper-case forms of \<open>\xb5\<close> and
  \<open>\xff\<close> lie above U+00FF, and the model leaves these two characters unchanged.
\<close>

definition toLowerCaseChar :: "char \<Rightarrow> char" where
  "toLowerCaseChar c =
     (if inRange 65 90 c \<or> inRange 192 214 c \<or> inRange 216 222 c
      then char_of (charCode c + 32) else c)"

definition toUpperCaseChar :: "char \<Rightarrow> string" where
  "toUpperCaseChar c =
     (if inRange 97 122 c \<or> inRange 224 246 c \<or> inRange 248 254 c
      then [char_of (charCode c - 32)]
      else if charCode c = 223 then ''SS'' else [c])"

definition toLowerCase :: "string \<Rightarrow> string" where
  "toLowerCase s = map toLowerCaseChar s"

text \<open>\<open>upperFirst(s) = s.charAt(0).toUpperCase() + s.slice(1)\<close>\<close>

definition upperFirst :: "string \<Rightarrow> string" where
  "upperFirst s = (case s of [] \<Rightarrow> [] | c # cs \<Rightarrow> toUpperCaseChar c @ cs)"

definition capitalize :: "string \<Rightarrow> string" where
  "capitalize s = upperFirst (toLowerCase s)"

text \<open>
  The reduction of \<open>camelCase\<close> over the words: \<open>result\<close> is the accumulator and
  \<open>first\<close> says whether the word at the head has index 0.
\<close>

fun camelReduce :: "string \<Rightarrow> bool \<Rightarrow> string list \<Rightarrow> string" where
  "camelReduce result first [] = result"
| "camelReduce result first (word # ws) =
     camelReduce
       (result @ (if first then toLowerCase word else capitalize (toLowerCase word)))
       False ws"

definition camelCase :: "string \<Rightarrow> string" where
  "camelCase s = camelReduce [] True (words (filter (\<lambda>c. \<not> rsApos c) (deburr s)))"

section \<open>NameResolver\<close>

record DeclaredTypeName =
  fernFilepath :: "string list"
  name :: string

definition getNameFromDeclaredTypeName :: "DeclaredTypeName \<Rightarrow> string" where
  "getNameFromDeclaredTypeName declaredTypeName =
     (let nameTokens = fernFilepath declaredTypeName @ [DeclaredTypeName.name declaredTypeName]
      in upperFirst (camelCase (join '' '' nameTokens)))"

definition getReferenceFromDeclaredTypeName :: "DeclaredTypeName \<Rightarrow> string" where
  "getReferenceFromDeclaredTypeName declaredTypeName =
     ''#/components/schemas/'' @ getNameFromDeclaredTypeName declaredTypeName"

section \<open>The intermediate representation\<close>

text \<open>
  The IR types are tagged unions that the converters take apart with the \<open>_visit\<close>
  functions of the IR library; a value whose tag is none of those the visitor knows
  goes to the visitor's \<open>_unknown\<close> case. Each datatype below has the closed set of
  variants and one more constructor for a value with any other tag (it carries the
  tag). The arguments of \<open>MapType\<close> are the map's \<open>keyType\<close> and \<open>valueType\<close>.
\<close>

datatype PrimitiveType =
    PBoolean
  | PDateTime
  | PDouble
  | PInteger
  | PLong
  | PString
  | PUuid
  | UnrecognizedPrimitive string

datatype TypeReference =
    Container ContainerType
  | Named DeclaredTypeName
  | Primitive PrimitiveType
  | Unknown
  | Void
  | UnrecognizedReference string
and ContainerType =
    ListType TypeReference
  | SetType TypeReference
  | MapType TypeReference TypeReference
  | OptionalType TypeReference
  | UnrecognizedContainer string

record AliasTypeDeclaration =
  aliasOf :: TypeReference

record EnumValue =
  "value" :: string

record EnumTypeDeclaration =
  "values" :: "EnumValue list"

record ObjectProperty =
  key :: string
  valueType :: TypeReference
  docs :: "string option"

record ObjectTypeDeclaration =
  "extends" :: "DeclaredTypeName list"
  properties :: "ObjectProperty list"

record SingleUnionType =
  discriminantValue :: string
  valueType :: TypeReference

record UnionTypeDeclaration =
  discriminant :: string
  types :: "SingleUnionType list"

datatype Type =
    Alias AliasTypeDeclaration
  | Enum EnumTypeDeclaration
  | Object ObjectTypeDeclaration
  | Union UnionTypeDeclaration
  | UnrecognizedType string

record TypeDeclaration =
  name :: DeclaredTypeName
  shape :: Type
  docs :: "string option"

section \<open>TypeConverter\<close>

text \<open>
  A converter either returns a value or throws. The only \<open>throw\<close> statements of the
  sources are those of the \<open>_unknown\<close> cases; an error value says which of them was
  reached and carries the unrecognised tag (the text of the message is not modelled).
\<close>

datatype error =
    UnknownType string
  | UnknownTypeReference string
  | UnknownPrimitiveType string
  | UnknownContainerType string
  | UnknownAuthScheme string
  | UnknownAuthSchemeRequirement string

record ConvertedType =
  openApiSchema :: jsval
  schemaName :: string

text \<open>\<open>docs ?? undefined\<close>\<close>

definition docsValue :: "string option \<Rightarrow> jsval" where
  "docsValue d = (case d of None \<Rightarrow> JUndefined | Some text \<Rightarrow> JString text)"

text \<open>
  The properties an object spread \<open>{...v}\<close> copies. The converters only spread
  converted type references, which are objects (lemma \<open>convertTypeReference_object\<close>).
\<close>

definition spread :: "jsval \<Rightarrow> props" where
  "spread v = (case v of JObject ps \<Rightarrow> ps | _ \<Rightarrow> [])"

definition refObject :: "DeclaredTypeName \<Rightarrow> jsval" where
  "refObject declaredTypeName =
     JObject [(''$ref'', JString (getReferenceFromDeclaredTypeName declaredTypeName))]"

fun convertPrimitiveType :: "PrimitiveType \<Rightarrow> error + jsval" where
  "convertPrimitiveType PBoolean = Inr (JObject [(''type'', JString ''boolean'')])"
| "convertPrimitiveType PDateTime =
     Inr (JObject [(''type'', JString ''string''), (''format'', JString ''date-time'')])"
| "convertPrimitiveType PDouble =
     Inr (JObject [(''type'', JString ''number''), (''format'', JString ''double'')])"
| "convertPrimitiveType PInteger = Inr (JObject [(''type'', JString ''integer'')])"
| "convertPrimitiveType PLong =
     Inr (JObject [(''type'', JString ''integer''), (''format'', JString ''int64'')])"
| "convertPrimitiveType PString = Inr (JObject [(''type'', JString ''string'')])"
| "convertPrimitiveType PUuid =
     Inr (JObject [(''type'', JString ''string''), (''format'', JString ''uuid'')])"
| "convertPrimitiveType (UnrecognizedPrimitive tag) = Inl (UnknownPrimitiveType tag)"

fun convertTypeReference :: "TypeReference \<Rightarrow> error + jsval"
  and convertContainerType :: "ContainerType \<Rightarrow> error + jsval" where
  "convertTypeReference (Container containerType) = convertContainerType containerType"
| "convertTypeReference (Named declaredTypeName) = Inr (refObject declaredTypeName)"
| "convertTypeReference (Primitive primitiveType) = convertPrimitiveType primitiveType"
| "convertTypeReference Unknown = Inr (JObject [])"
| "convertTypeReference Void = Inr (JObject [])"
| "convertTypeReference (UnrecognizedReference tag) = Inl (UnknownTypeReference tag)"
| "convertContainerType (ListType listType) =
     (case convertTypeReference listType of
        Inl e \<Rightarrow> Inl e
      | Inr items \<Rightarrow> Inr (JObject [(''type'', JString ''array''), (''items'', items)]))"
| "convertContainerType (SetType setType) =
     (case convertTypeReference setType of
        Inl e \<Rightarrow> Inl e
      | Inr items \<Rightarrow> Inr (JObject [(''type'', JString ''array''), (''items'', items)]))"
| "convertContainerType (MapType mapKeyType mapValueType) =
     (case convertTypeReference mapValueType of
        Inl e \<Rightarrow> Inl e
      | Inr additional \<Rightarrow>
          Inr (JObject [(''type'', JString ''object''), (''additionalProperties'', additional)]))"
| "convertContainerType (OptionalType optionalType) = convertTypeReference optionalType"
| "convertContainerType (UnrecognizedContainer tag) = Inl (UnknownContainerType tag)"

definition convertAlias :: "AliasTypeDeclaration \<Rightarrow> string option \<Rightarrow> error + jsval" where
  "convertAlias aliasTypeDeclaration d =
     (case convertTypeReference (aliasOf aliasTypeDeclaration) of
        Inl e \<Rightarrow> Inl e
      | Inr convertedAliasOf \<Rightarrow>
          Inr (JObject (setProperty ''description'' (docsValue d) (spread convertedAliasOf))))"

definition convertEnum :: "EnumTypeDeclaration \<Rightarrow> string option \<Rightarrow> error + jsval" where
  "convertEnum enumTypeDeclaration d =
     Inr (JObject
       [(''type'', JString ''string''),
        (''enum'', JArray (map (\<lambda>enumValue. JString (EnumValue.value enumValue))
                            (EnumTypeDeclaration.values enumTypeDeclaration))),
        (''description'', docsValue d)])"

definition isOptionalProperty :: "ObjectProperty \<Rightarrow> bool" where
  "isOptionalProperty objectProperty =
     (case ObjectProperty.valueType objectProperty of
        Container (OptionalType t) \<Rightarrow> True
      | _ \<Rightarrow> False)"

text \<open>
  The \<open>forEach\<close> loop of \<open>convertObject\<close> over the properties, threading the two
  locals \<open>properties\<close> and \<open>required\<close>; a \<open>throw\<close> of \<open>convertTypeReference\<close> ends it.
\<close>

fun convertProperties ::
  "ObjectProperty list \<Rightarrow> props \<Rightarrow> string list \<Rightarrow> error + (props \<times> string list)" where
  "convertProperties [] ps required = Inr (ps, required)"
| "convertProperties (objectProperty # rest) ps required =
     (case convertTypeReference (ObjectProperty.valueType objectProperty) of
        Inl e \<Rightarrow> Inl e
      | Inr convertedObjectProperty \<Rightarrow>
          convertProperties rest
            (assignProperty (key objectProperty)
               (JObject (setProperty ''description''
                  (docsValue (ObjectProperty.docs objectProperty))
                  (spread convertedObjectProperty)))
               ps)
            (if \<not> isOptionalProperty objectProperty
             then required @ [key objectProperty] else required))"

definition convertObject :: "ObjectTypeDeclaration \<Rightarrow> string option \<Rightarrow> error + jsval" where
  "convertObject objectTypeDeclaration d =
     (case convertProperties (properties objectTypeDeclaration) [] [] of
        Inl e \<Rightarrow> Inl e
      | Inr (ps, required) \<Rightarrow>
          (let convertedSchemaObject =
                 [(''type'', JString ''object''),
                  (''description'', docsValue d),
                  (''properties'', JObject ps),
                  (''required'', JArray (map JString required))]
           in Inr (JObject
                (if 0 < length (extends objectTypeDeclaration)
                 then assignProperty ''allOf''
                        (JArray (map refObject (extends objectTypeDeclaration)))
                        convertedSchemaObject
                 else convertedSchemaObject))))"

definition discriminantEnum :: "string \<Rightarrow> jsval" where
  "discriminantEnum v = JObject [(''type'', JString ''string''), (''enum'', JArray [JString v])]"

definition convertSingleUnionType :: "string \<Rightarrow> SingleUnionType \<Rightarrow> error + jsval" where
  "convertSingleUnionType discr singleUnionType =
     (case convertTypeReference (SingleUnionType.valueType singleUnionType) of
        Inl e \<Rightarrow> Inl e
      | Inr convertedValueType \<Rightarrow>
          (case SingleUnionType.valueType singleUnionType of
             Named declaredTypeName \<Rightarrow>
               Inr (JObject
                 [(''type'', JString ''object''),
                  (''allOf'', JArray
                     [refObject declaredTypeName,
                      JObject
                        [(''type'', JString ''object''),
                         (''properties'', JObject
                            (assignProperty discr
                               (discriminantEnum (discriminantValue singleUnionType)) []))]])])
           | _ \<Rightarrow>
               Inr (JObject
                 [(''type'', JString ''object''),
                  (''properties'', JObject
                     (assignProperty discr convertedValueType
                        (assignProperty discr
                           (discriminantEnum (discriminantValue singleUnionType)) [])))])))"

text \<open>\<open>types.map(...)\<close>, left to right; the first \<open>throw\<close> ends it.\<close>

fun convertSingleUnionTypes :: "string \<Rightarrow> SingleUnionType list \<Rightarrow> error + jsval list" where
  "convertSingleUnionTypes discr [] = Inr []"
| "convertSingleUnionTypes discr (singleUnionType # rest) =
     (case convertSingleUnionType discr singleUnionType of
        Inl e \<Rightarrow> Inl e
      | Inr v \<Rightarrow>
          (case convertSingleUnionTypes discr rest of
             Inl e \<Rightarrow> Inl e
           | Inr vs \<Rightarrow> Inr (v # vs)))"

definition convertUnion :: "UnionTypeDeclaration \<Rightarrow> string option \<Rightarrow> error + jsval" where
  "convertUnion unionTypeDeclaration d =
     (case convertSingleUnionTypes (discriminant unionTypeDeclaration)
             (types unionTypeDeclaration) of
        Inl e \<Rightarrow> Inl e
      | Inr oneOfTypes \<Rightarrow>
          Inr (JObject [(''oneOf'', JArray oneOfTypes), (''description'', docsValue d)]))"

definition convertShape :: "Type \<Rightarrow> string option \<Rightarrow> error + jsval" where
  "convertShape sh d =
     (case sh of
        Alias aliasTypeDeclaration \<Rightarrow> convertAlias aliasTypeDeclaration d
      | Enum enumTypeDeclaration \<Rightarrow> convertEnum enumTypeDeclaration d
      | Object objectTypeDeclaration \<Rightarrow> convertObject objectTypeDeclaration d
      | Union unionTypeDeclaration \<Rightarrow> convertUnion unionTypeDeclaration d
      | UnrecognizedType tag \<Rightarrow> Inl (UnknownType tag))"

definition convertType :: "TypeDeclaration \<Rightarrow> error + ConvertedType" where
  "convertType typeDeclaration =
     (case convertShape (shape typeDeclaration) (TypeDeclaration.docs typeDeclaration) of
        Inl e \<Rightarrow> Inl e
      | Inr schema \<Rightarrow>
          Inr \<lparr>openApiSchema = schema,
               schemaName = getNameFromDeclaredTypeName (TypeDeclaration.name typeDeclaration)\<rparr>)"

section \<open>AuthConverter\<close>

text \<open>
  Of a header scheme the converters read \<open>header.name.wireValue\<close> and
  \<open>header.name.name.pascalCase.unsafeName\<close>.
\<close>

record SafeAndUnsafeString =
  unsafeName :: string

record Name =
  pascalCase :: SafeAndUnsafeString

record NameAndWireValue =
  wireValue :: string
  name :: Name

record HeaderAuthScheme =
  name :: NameAndWireValue

datatype AuthScheme =
    Bearer
  | Basic
  | Header HeaderAuthScheme
  | UnrecognizedAuthScheme string

datatype AuthSchemesRequirement =
    RequireAll
  | RequireAny
  | UnrecognizedRequirement string

record ApiAuth =
  requirement :: AuthSchemesRequirement
  schemes :: "AuthScheme list"

fun getNameForAuthScheme :: "AuthScheme \<Rightarrow> error + string" where
  "getNameForAuthScheme Bearer = Inr ''BearerAuth''"
| "getNameForAuthScheme Basic = Inr ''BasicAuth''"
| "getNameForAuthScheme (Header header) =
     Inr (unsafeName (pascalCase (NameAndWireValue.name (HeaderAuthScheme.name header)))
          @ ''Auth'')"
| "getNameForAuthScheme (UnrecognizedAuthScheme tag) = Inl (UnknownAuthScheme tag)"

text \<open>
  \<open>schemes.reduce((acc, scheme) => ({...acc, [getNameForAuthScheme(scheme)]: []}),
  {})\<close>, with \<open>acc\<close> the accumulator.
\<close>

fun reduceSchemes :: "props \<Rightarrow> AuthScheme list \<Rightarrow> error + props" where
  "reduceSchemes acc [] = Inr acc"
| "reduceSchemes acc (scheme # rest) =
     (case getNameForAuthScheme scheme of
        Inl e \<Rightarrow> Inl e
      | Inr schemeName \<Rightarrow> reduceSchemes (setProperty schemeName (JArray []) acc) rest)"

text \<open>\<open>schemes.map((scheme) => ({[getNameForAuthScheme(scheme)]: []}))\<close>\<close>

fun mapSchemes :: "AuthScheme list \<Rightarrow> error + jsval list" where
  "mapSchemes [] = Inr []"
| "mapSchemes (scheme # rest) =
     (case getNameForAuthScheme scheme of
        Inl e \<Rightarrow> Inl e
      | Inr schemeName \<Rightarrow>
          (case mapSchemes rest of
             Inl e \<Rightarrow> Inl e
           | Inr vs \<Rightarrow> Inr (JObject (setProperty schemeName (JArray []) []) # vs)))"

definition constructEndpointSecurity :: "ApiAuth \<Rightarrow> error + jsval list" where
  "constructEndpointSecurity apiAuth =
     (case requirement apiAuth of
        RequireAll \<Rightarrow>
          (case reduceSchemes [] (schemes apiAuth) of
             Inl e \<Rightarrow> Inl e
           | Inr acc \<Rightarrow> Inr [JObject acc])
      | RequireAny \<Rightarrow> mapSchemes (schemes apiAuth)
      | UnrecognizedRequirement tag \<Rightarrow> Inl (UnknownAuthSchemeRequirement tag))"

fun securitySchemeObject :: "AuthScheme \<Rightarrow> error + jsval" where
  "securitySchemeObject Bearer =
     Inr (JObject [(''type'', JString ''http''), (''scheme'', JString ''bearer'')])"
| "securitySchemeObject Basic =
     Inr (JObject [(''type'', JString ''http''), (''scheme'', JString ''basic'')])"
| "securitySchemeObject (Header header) =
     Inr (JObject [(''type'', JString ''apiKey''), (''in'', JString ''header''),
                   (''name'', JString (wireValue (HeaderAuthScheme.name header)))])"
| "securitySchemeObject (UnrecognizedAuthScheme tag) = Inl (UnknownAuthScheme tag)"

text \<open>
  The \<open>for\<close> loop of \<open>constructSecuritySchemes\<close>, with the local \<open>securitySchemes\<close>; in
  \<open>securitySchemes[getNameForAuthScheme(scheme)] = AuthScheme._visit(...)\<close> the key is
  computed before the value.
\<close>

fun securitySchemesLoop :: "props \<Rightarrow> AuthScheme list \<Rightarrow> error + props" where
  "securitySchemesLoop securitySchemes [] = Inr securitySchemes"
| "securitySchemesLoop securitySchemes (scheme # rest) =
     (case getNameForAuthScheme scheme of
        Inl e \<Rightarrow> Inl e
      | Inr schemeName \<Rightarrow>
          (case securitySchemeObject scheme of
             Inl e \<Rightarrow> Inl e
           | Inr v \<Rightarrow> securitySchemesLoop (assignProperty schemeName v securitySchemes) rest))"

definition constructSecuritySchemes :: "ApiAuth \<Rightarrow> error + jsval" where
  "constructSecuritySchemes apiAuth =
     (case securitySchemesLoop [] (schemes apiAuth) of
        Inl e \<Rightarrow> Inl e
      | Inr securitySchemes \<Rightarrow> Inr (JObject securitySchemes))"

section \<open>Vocabulary of the properties\<close>

text \<open>\<open>field v k\<close> is the value of the own property \<open>k\<close> of the object \<open>v\<close>, if it has one.\<close>

definition field :: "jsval \<Rightarrow> string \<Rightarrow> jsval option" where
  "field v k = getProperty (spread v) k"

text \<open>
  The schema the claims give to an object property: the converted value type with the
  property's own docs attached as \<open>description\<close>.
\<close>

definition propertySchema :: "ObjectProperty \<Rightarrow> error + jsval" where
  "propertySchema objectProperty =
     (case convertTypeReference (ObjectProperty.valueType objectProperty) of
        Inl e \<Rightarrow> Inl e
      | Inr converted \<Rightarrow>
          Inr (JObject (spread converted
                 @ [(''description'', docsValue (ObjectProperty.docs objectProperty))])))"



text \<open>The keys of the properties that are not optional, in declared order.\<close>

definition requiredKeys :: "ObjectProperty list \<Rightarrow> string list" where
  "requiredKeys declared =
     map key (filter (\<lambda>objectProperty. \<not> isOptionalProperty objectProperty) declared)"


text \<open>The computed name of an auth scheme that has one.\<close>

definition schemeName :: "AuthScheme \<Rightarrow> string" where
  "schemeName scheme = (case getNameForAuthScheme scheme of Inl e \<Rightarrow> [] | Inr n \<Rightarrow> n)"

text \<open>
  \<open>closed...\<close>: the value is built only from the closed-set variants, at every position
  (the key type of a map included).
\<close>

fun closedPrimitive :: "PrimitiveType \<Rightarrow> bool" where
  "closedPrimitive (UnrecognizedPrimitive tag) = False"
| "closedPrimitive primitiveType = True"

fun closedTypeReference :: "TypeReference \<Rightarrow> bool"
  and closedContainerType :: "ContainerType \<Rightarrow> bool" where
  "closedTypeReference (Container containerType) = closedContainerType containerType"
| "closedTypeReference (Named declaredTypeName) = True"
| "closedTypeReference (Primitive primitiveType) = closedPrimitive primitiveType"
| "closedTypeReference Unknown = True"
| "closedTypeReference Void = True"
| "closedTypeReference (UnrecognizedReference tag) = False"
| "closedContainerType (ListType listType) = closedTypeReference listType"
| "closedContainerType (SetType setType) = closedTypeReference setType"
| "closedContainerType (MapType mapKeyType mapValueType) =
     (closedTypeReference mapKeyType \<and> closedTypeReference mapValueType)"
| "closedContainerType (OptionalType optionalType) = closedTypeReference optionalType"
| "closedContainerType (UnrecognizedContainer tag) = False"

fun closedShape :: "Type \<Rightarrow> bool" where
  "closedShape (Alias aliasTypeDeclaration) = closedTypeReference (aliasOf aliasTypeDeclaration)"
| "closedShape (Enum enumTypeDeclaration) = True"
| "closedShape (Object objectTypeDeclaration) =
     list_all (\<lambda>objectProperty. closedTypeReference (ObjectProperty.valueType objectProperty))
       (properties objectTypeDeclaration)"
| "closedShape (Union unionTypeDeclaration) =
     list_all (\<lambda>singleUnionType. closedTypeReference (SingleUnionType.valueType singleUnionType))
       (types unionTypeDeclaration)"
| "closedShape (UnrecognizedType tag) = False"

fun closedAuthScheme :: "AuthScheme \<Rightarrow> bool" where
  "closedAuthScheme (UnrecognizedAuthScheme tag) = False"
| "closedAuthScheme scheme = True"

fun closedRequirement :: "AuthSchemesRequirement \<Rightarrow> bool" where
  "closedRequirement (UnrecognizedRequirement tag) = False"
| "closedRequirement mode = True"

definition closedApiAuth :: "ApiAuth \<Rightarrow> bool" where
  "closedApiAuth apiAuth =
     (closedRequirement (requirement apiAuth) \<and> list_all closedAuthScheme (schemes apiAuth))"

text \<open>
  \<open>...TagErrors\<close>: the errors of the unrecognised tags at the positions a converter
  inspects, in the order in which it inspects them. The key type of a map is not among
  these positions.
\<close>

fun primitiveTagErrors :: "PrimitiveType \<Rightarrow> error list" where
  "primitiveTagErrors (UnrecognizedPrimitive tag) = [UnknownPrimitiveType tag]"
| "primitiveTagErrors primitiveType = []"

fun tagErrors :: "TypeReference \<Rightarrow> error list"
  and containerTagErrors :: "ContainerType \<Rightarrow> error list" where
  "tagErrors (Container containerType) = containerTagErrors containerType"
| "tagErrors (Named declaredTypeName) = []"
| "tagErrors (Primitive primitiveType) = primitiveTagErrors primitiveType"
| "tagErrors Unknown = []"
| "tagErrors Void = []"
| "tagErrors (UnrecognizedReference tag) = [UnknownTypeReference tag]"
| "containerTagErrors (ListType listType) = tagErrors listType"
| "containerTagErrors (SetType setType) = tagErrors setType"
| "containerTagErrors (MapType mapKeyType mapValueType) = tagErrors mapValueType"
| "containerTagErrors (OptionalType optionalType) = tagErrors optionalType"
| "containerTagErrors (UnrecognizedContainer tag) = [UnknownContainerType tag]"

fun shapeTagErrors :: "Type \<Rightarrow> error list" where
  "shapeTagErrors (Alias aliasTypeDeclaration) = tagErrors (aliasOf aliasTypeDeclaration)"
| "shapeTagErrors (Enum enumTypeDeclaration) = []"
| "shapeTagErrors (Object objectTypeDeclaration) =
     concat (map (\<lambda>objectProperty. tagErrors (ObjectProperty.valueType objectProperty))
       (properties objectTypeDeclaration))"
| "shapeTagErrors (Union unionTypeDeclaration) =
     concat (map (\<lambda>singleUnionType. tagErrors (SingleUnionType.valueType singleUnionType))
       (types unionTypeDeclaration))"
| "shapeTagErrors (UnrecognizedType tag) = [UnknownType tag]"

fun schemeTagErrors :: "AuthScheme \<Rightarrow> error list" where
  "schemeTagErrors (UnrecognizedAuthScheme tag) = [UnknownAuthScheme tag]"
| "schemeTagErrors scheme = []"

fun requirementTagErrors :: "AuthSchemesRequirement \<Rightarrow> error list" where
  "requirementTagErrors (UnrecognizedRequirement tag) = [UnknownAuthSchemeRequirement tag]"
| "requirementTagErrors mode = []"

text \<open>The error a converter throws, if it throws; the first error of a list.\<close>

definition failure :: "'e + 'a \<Rightarrow> 'e option" where
  "failure r = (case r of Inl e \<Rightarrow> Some e | Inr v \<Rightarrow> None)"

definition firstError :: "error list \<Rightarrow> error option" where
  "firstError es = (case es of [] \<Rightarrow> None | e # rest \<Rightarrow> Some e)"

text \<open>The least number of characters a match of a regular expression consumes.\<close>

fun minLen :: "rx \<Rightarrow> nat" where
  "minLen (Cls P) = 1"
| "minLen (Lit w) = length w"
| "minLen (Seq a b) = minLen a + minLen b"
| "minLen (Alt a b) = min (minLen a) (minLen b)"
| "minLen (Opt a) = 0"
| "minLen (Star P) = 0"
| "minLen (Plus P) = 1"
| "minLen (Ahead a) = 0"
| "minLen (NotAhead a) = 0"
| "minLen WordB = 0"
| "minLen Eos = 0"

text \<open>The characters of a phrase of lower-case words: the letters \<open>a-z\<close> and the space.\<close>

definition lowerOrSpace :: "char \<Rightarrow> bool" where
  "lowerOrSpace c = (isAsciiLower c \<or> c = CHR '' '')"

section \<open>Properties of \<open>setProperty\<close>\<close>

lemma isArrayIndex_description: "\<not> isArrayIndex ''description''"
  by code_simp

lemma isArrayIndex_allOf: "\<not> isArrayIndex ''allOf''"
  by code_simp

lemma setProperty_new:
  "k \<notin> set (map fst ps) \<Longrightarrow> \<not> isArrayIndex k \<Longrightarrow> setProperty k v ps = ps @ [(k, v)]"
  by (simp add: setProperty_def)

lemma setProperty_Nil: "setProperty k v [] = [(k, v)]"
  by (simp add: setProperty_def)


lemma keys_insertIndexKey:
  "fst ` set (insertIndexKey k v ps) = insert k (fst ` set ps)"
  by (induction k v ps rule: insertIndexKey.induct) (simp_all add: insert_commute)

lemma keys_replace:
  "map fst (map (\<lambda>(k', v'). (k', g k' v')) ps) = map fst ps"
  by (induction ps) (simp_all add: split_beta)

lemma keys_setProperty:
  "fst ` set (setProperty k v ps) = insert k (fst ` set ps)"
proof (cases "k \<in> set (map fst ps)")
  case True
  have "map fst (setProperty k v ps) = map fst ps"
    unfolding setProperty_def using True by (simp only: if_True keys_replace)
  then have "set (map fst (setProperty k v ps)) = set (map fst ps)"
    by simp
  with True show ?thesis by auto
next
  case False
  then show ?thesis
    by (simp add: setProperty_def keys_insertIndexKey)
qed

lemma map_of_insertIndexKey:
  "k \<notin> fst ` set ps \<Longrightarrow>
   map_of (insertIndexKey k v ps) k' = (if k' = k then Some v else map_of ps k')"
  by (induction k v ps rule: insertIndexKey.induct) auto

lemma map_of_replace:
  "map_of (map (\<lambda>(k', v'). (k', if k' = k then v else v')) ps) k'
     = (case map_of ps k' of None \<Rightarrow> None | Some w \<Rightarrow> Some (if k' = k then v else w))"
  by (induction ps) (simp_all add: split_beta)

text \<open>
  Once the own property \<open>k\<close> is defined with \<open>v\<close>, the key \<open>k\<close> holds \<open>v\<close> and every
  other key holds what it held.
\<close>

lemma getProperty_setProperty:
  "getProperty (setProperty k v ps) k' = (if k' = k then Some v else getProperty ps k')"
proof (cases "k \<in> set (map fst ps)")
  case True
  then obtain w where w: "map_of ps k = Some w"
    by (metis map_of_eq_None_iff not_Some_eq set_map)
  have "getProperty (setProperty k v ps) k'
      = (case map_of ps k' of None \<Rightarrow> None | Some w \<Rightarrow> Some (if k' = k then v else w))"
    unfolding setProperty_def getProperty_def using True
    by (simp only: if_True map_of_replace)
  with w show ?thesis
    by (cases "k' = k") (simp_all add: getProperty_def split: option.splits)
next
  case False
  then have none: "map_of ps k = None"
    by (simp add: map_of_eq_None_iff)
  show ?thesis
  proof (cases "isArrayIndex k")
    case True
    with False show ?thesis
      by (simp add: getProperty_def setProperty_def map_of_insertIndexKey)
  next
    case idx: False
    with False none show ?thesis
      by (simp add: getProperty_def setProperty_def map_add_def split: option.splits)
  qed
qed



lemma assignProperty_allOf: "assignProperty ''allOf'' v ps = setProperty ''allOf'' v ps"
  by (simp add: assignProperty_def)


section \<open>Converted type references\<close>

lemma convertPrimitiveType_object:
  "convertPrimitiveType p = Inr v \<Longrightarrow>
     \<exists>ps. v = JObject ps \<and> ''description'' \<notin> set (map fst ps)"
  by (cases p) auto

lemma convertTypeReference_object_aux:
  "(\<forall>v. convertTypeReference t = Inr v \<longrightarrow>
      (\<exists>ps. v = JObject ps \<and> ''description'' \<notin> set (map fst ps)))"
  "(\<forall>v. convertContainerType c = Inr v \<longrightarrow>
      (\<exists>ps. v = JObject ps \<and> ''description'' \<notin> set (map fst ps)))"
  by (induction t and c)
     (auto simp: refObject_def dest: convertPrimitiveType_object split: sum.splits)

text \<open>A converted type reference is an object, and it has no \<open>description\<close> of its own.\<close>

lemma convertTypeReference_object:
  "convertTypeReference t = Inr v \<Longrightarrow>
     \<exists>ps. v = JObject ps \<and> ''description'' \<notin> set (map fst ps)"
  using convertTypeReference_object_aux(1) by blast

section \<open>The loop over the properties of an object\<close>

lemma isOptionalProperty_iff:
  "isOptionalProperty p \<longleftrightarrow> (\<exists>T. ObjectProperty.valueType p = Container (OptionalType T))"
  by (auto simp: isOptionalProperty_def split: TypeReference.splits ContainerType.splits)

lemma convertProperties_step:
  "convertProperties (p # rest) ps req =
     (case propertySchema p of
        Inl e \<Rightarrow> Inl e
      | Inr v \<Rightarrow> convertProperties rest (assignProperty (key p) v ps)
                   (if isOptionalProperty p then req else req @ [key p]))"
proof (cases "convertTypeReference (ObjectProperty.valueType p)")
  case (Inl e)
  then show ?thesis by (simp add: propertySchema_def)
next
  case (Inr c)
  then obtain cs where c: "c = JObject cs" and d: "''description'' \<notin> set (map fst cs)"
    using convertTypeReference_object by blast
  have "setProperty ''description'' (docsValue (ObjectProperty.docs p)) cs
      = cs @ [(''description'', docsValue (ObjectProperty.docs p))]"
    using d by (rule setProperty_new) (rule isArrayIndex_description)
  with Inr c show ?thesis
    by (simp add: propertySchema_def spread_def)
qed

lemma convertProperties_required:
  "convertProperties declared ps req = Inr (ps', req') \<Longrightarrow> req' = req @ requiredKeys declared"
proof (induction declared arbitrary: ps req)
  case Nil
  then show ?case by (simp add: requiredKeys_def)
next
  case (Cons p rest)
  from Cons.prems obtain v where v: "propertySchema p = Inr v"
    and r: "convertProperties rest (assignProperty (key p) v ps)
              (if isOptionalProperty p then req else req @ [key p]) = Inr (ps', req')"
    by (auto simp: convertProperties_step simp del: convertProperties.simps split: sum.splits)
  from Cons.IH [OF r] show ?case
    by (simp add: requiredKeys_def)
qed





section \<open>Named references and optional containers\<close>

text \<open>
  Claim C2. For every declared type name \<open>D\<close>, \<open>convertTypeReference\<close> of the reference
  \<open>named(D)\<close> returns exactly the object \<open>{$ref: "#/components/schemas/" + resolve(D)}\<close>.
  The converter is a function of the reference alone: it is not given the declaration
  that \<open>D\<close> names, so that declaration's shape cannot matter and is never expanded.
\<close>

theorem C2_named_is_ref:
  "convertTypeReference (Named D) =
     Inr (JObject
       [(''$ref'', JString (''#/components/schemas/'' @ getNameFromDeclaredTypeName D))])"
  by (simp add: refObject_def getReferenceFromDeclaredTypeName_def)

text \<open>
  Claim C3. For every type reference \<open>T\<close>, converting the container \<open>optional(T)\<close> gives
  exactly what converting \<open>T\<close> gives (the same value, or the same error).
\<close>

theorem C3_optional_erased:
  "convertTypeReference (Container (OptionalType T)) = convertTypeReference T"
  by simp

section \<open>Objects\<close>

text \<open>The schema of an object, spelled out.\<close>

lemma convertObject_Inr:
  assumes "convertObject ob d = Inr s"
  shows "\<exists>ps req. convertProperties (properties ob) [] [] = Inr (ps, req) \<and>
     s = JObject
       ([(''type'', JString ''object''), (''description'', docsValue d),
         (''properties'', JObject ps), (''required'', JArray (map JString req))]
        @ (if extends ob = [] then []
           else [(''allOf'', JArray (map (\<lambda>D. JObject
                   [(''$ref'', JString (getReferenceFromDeclaredTypeName D))]) (extends ob)))]))"
proof (cases "convertProperties (properties ob) [] []")
  case (Inl e)
  with assms show ?thesis by (simp add: convertObject_def)
next
  case (Inr r)
  obtain ps req where r: "r = (ps, req)" by (cases r)
  have allOf: "\<And>v. assignProperty ''allOf'' v
       [(''type'', JString ''object''), (''description'', docsValue d),
        (''properties'', JObject ps), (''required'', JArray (map JString req))]
     = [(''type'', JString ''object''), (''description'', docsValue d),
        (''properties'', JObject ps), (''required'', JArray (map JString req))] @ [(''allOf'', v)]"
    unfolding assignProperty_allOf
    by (rule setProperty_new) (simp_all add: isArrayIndex_allOf)
  have ref: "refObject = (\<lambda>D. JObject [(''$ref'', JString (getReferenceFromDeclaredTypeName D))])"
    by (rule ext) (simp add: refObject_def)
  from assms Inr r show ?thesis
    by (auto simp: convertObject_def allOf ref Let_def)
qed

lemma convertObject_fields:
  assumes "convertObject ob d = Inr s"
  obtains ps req where
    "convertProperties (properties ob) [] [] = Inr (ps, req)"
    "field s ''type'' = Some (JString ''object'')"
    "field s ''description'' = Some (docsValue d)"
    "field s ''properties'' = Some (JObject ps)"
    "field s ''required'' = Some (JArray (map JString req))"
proof -
  from convertObject_Inr [OF assms] obtain ps req where
    c: "convertProperties (properties ob) [] [] = Inr (ps, req)" and
    s: "s = JObject
       ([(''type'', JString ''object''), (''description'', docsValue d),
         (''properties'', JObject ps), (''required'', JArray (map JString req))]
        @ (if extends ob = [] then []
           else [(''allOf'', JArray (map (\<lambda>D. JObject
                   [(''$ref'', JString (getReferenceFromDeclaredTypeName D))]) (extends ob)))]))"
    by blast
  from s have "field s ''type'' = Some (JString ''object'')"
    "field s ''description'' = Some (docsValue d)"
    "field s ''properties'' = Some (JObject ps)"
    "field s ''required'' = Some (JArray (map JString req))"
    by (simp_all add: field_def spread_def getProperty_def)
  with c show ?thesis using that by blast
qed

text \<open>
  Claim C6. Whenever \<open>convertObject\<close> returns a schema, the schema is the object with the
  fields \<open>type\<close>, \<open>description\<close>, \<open>properties\<close>, \<open>required\<close> and, when the \<open>extends\<close> list is not
  empty, one more field \<open>allOf\<close> after them: the array of one \<open>{$ref: reference(D)}\<close> per
  supertype \<open>D\<close>, in the order of \<open>extends\<close>. When \<open>extends\<close> is empty there is no \<open>allOf\<close>.
\<close>

theorem C6_extends_allOf:
  assumes "convertObject ob d = Inr s"
  shows "\<exists>ps req. convertProperties (properties ob) [] [] = Inr (ps, req) \<and>
     s = JObject
       ([(''type'', JString ''object''), (''description'', docsValue d),
         (''properties'', JObject ps), (''required'', JArray (map JString req))]
        @ (if extends ob = [] then []
           else [(''allOf'', JArray (map (\<lambda>D. JObject
                   [(''$ref'', JString (getReferenceFromDeclaredTypeName D))]) (extends ob)))]))"
  using assms by (rule convertObject_Inr)

text \<open>
  The example of the spec: an object that extends \<open>A\<close> and \<open>B\<close>.
\<close>

theorem C6_extends_allOf_witness:
  "convertObject
     \<lparr>extends = [\<lparr>fernFilepath = [], DeclaredTypeName.name = ''A''\<rparr>,
                 \<lparr>fernFilepath = [], DeclaredTypeName.name = ''B''\<rparr>],
      properties = []\<rparr> None
   = Inr (JObject
       [(''type'', JString ''object''), (''description'', JUndefined),
        (''properties'', JObject []), (''required'', JArray []),
        (''allOf'', JArray [JObject [(''$ref'', JString ''#/components/schemas/A'')],
                            JObject [(''$ref'', JString ''#/components/schemas/B'')]])])
   \<and> (\<exists>ps req. convertProperties [] [] [] = Inr (ps, req))"
proof -
  have h: "convertObject
     \<lparr>extends = [\<lparr>fernFilepath = [], DeclaredTypeName.name = ''A''\<rparr>,
                 \<lparr>fernFilepath = [], DeclaredTypeName.name = ''B''\<rparr>],
      properties = []\<rparr> None
   = Inr (JObject
       [(''type'', JString ''object''), (''description'', JUndefined),
        (''properties'', JObject []), (''required'', JArray []),
        (''allOf'', JArray [JObject [(''$ref'', JString ''#/components/schemas/A'')],
                            JObject [(''$ref'', JString ''#/components/schemas/B'')]])])"
    by code_simp
  from C6_extends_allOf [OF h] have "\<exists>ps req. convertProperties [] [] [] = Inr (ps, req)"
    by auto
  with h show ?thesis by simp
qed




text \<open>
  A property declared under the key \<open>__proto__\<close> is counted in \<open>required\<close> and leaves no
  entry in \<open>properties\<close>.
\<close>

lemma convertObject_proto_key:
  "convertObject
     \<lparr>extends = [],
      properties =
        [\<lparr>key = ''a'', ObjectProperty.valueType = Primitive PString, ObjectProperty.docs = None\<rparr>,
         \<lparr>key = ''__proto__'', ObjectProperty.valueType = Primitive PLong,
          ObjectProperty.docs = None\<rparr>,
         \<lparr>key = ''b'', ObjectProperty.valueType = Primitive PBoolean, ObjectProperty.docs = None\<rparr>]\<rparr>
     None
   = Inr (JObject
       [(''type'', JString ''object''), (''description'', JUndefined),
        (''properties'', JObject
           [(''a'', JObject [(''type'', JString ''string''), (''description'', JUndefined)]),
            (''b'', JObject [(''type'', JString ''boolean''), (''description'', JUndefined)])]),
        (''required'', JArray [JString ''a'', JString ''__proto__'', JString ''b''])])"
  by code_simp

text \<open>
  Claim C10. Whenever \<open>convertObject\<close> returns a schema, the schema has the four fields
  \<open>type\<close> (the string \<open>object\<close>), \<open>description\<close> (the docs, or \<open>undefined\<close> when the declaration
  has none: the property is there all the same), \<open>properties\<close> (an object) and \<open>required\<close>
  (an array of strings). With an empty property list the conversion does return,
  \<open>properties\<close> is the empty object and \<open>required\<close> the empty array; when every property is
  optional, \<open>required\<close> is still there, as the empty array.
\<close>

theorem C10_object_fields:
  "(properties ob = [] \<longrightarrow> (\<exists>s. convertObject ob d = Inr s))
   \<and> (\<forall>s. convertObject ob d = Inr s \<longrightarrow>
        field s ''type'' = Some (JString ''object'')
      \<and> field s ''description'' = Some (docsValue d)
      \<and> (\<exists>ps. field s ''properties'' = Some (JObject ps) \<and> (properties ob = [] \<longrightarrow> ps = []))
      \<and> (\<exists>req. field s ''required'' = Some (JArray (map JString req))
            \<and> (list_all isOptionalProperty (properties ob) \<longrightarrow> req = [])))"
proof (intro conjI impI allI)
  assume "properties ob = []"
  then show "\<exists>s. convertObject ob d = Inr s"
    by (simp add: convertObject_def Let_def)
next
  fix s
  assume s: "convertObject ob d = Inr s"
  then obtain ps req where
    c: "convertProperties (properties ob) [] [] = Inr (ps, req)" and
    f: "field s ''type'' = Some (JString ''object'')"
       "field s ''description'' = Some (docsValue d)"
       "field s ''properties'' = Some (JObject ps)"
       "field s ''required'' = Some (JArray (map JString req))"
    by (rule convertObject_fields)
  show "field s ''type'' = Some (JString ''object'')" by (rule f)
  show "field s ''description'' = Some (docsValue d)" by (rule f)
  have "properties ob = [] \<longrightarrow> ps = []"
    using c by auto
  with f(3) show "\<exists>ps. field s ''properties'' = Some (JObject ps) \<and> (properties ob = [] \<longrightarrow> ps = [])"
    by blast
  have "req = requiredKeys (properties ob)"
    using convertProperties_required [OF c] by simp
  then have "list_all isOptionalProperty (properties ob) \<longrightarrow> req = []"
    by (simp add: requiredKeys_def list_all_iff)
  with f(4) show "\<exists>req. field s ''required'' = Some (JArray (map JString req))
            \<and> (list_all isOptionalProperty (properties ob) \<longrightarrow> req = [])"
    by blast
qed

theorem C10_object_fields_witness:
  "convertObject
     \<lparr>extends = [],
      properties =
        [\<lparr>key = ''nick'', ObjectProperty.valueType = Container (OptionalType (Primitive PString)),
          ObjectProperty.docs = None\<rparr>]\<rparr> None
   = Inr (JObject
       [(''type'', JString ''object''), (''description'', JUndefined),
        (''properties'', JObject
           [(''nick'', JObject [(''type'', JString ''string''), (''description'', JUndefined)])]),
        (''required'', JArray [])])
   \<and> field (JObject
       [(''type'', JString ''object''), (''description'', JUndefined),
        (''properties'', JObject
           [(''nick'', JObject [(''type'', JString ''string''), (''description'', JUndefined)])]),
        (''required'', JArray [])]) ''required'' = Some (JArray [])
   \<and> (\<exists>s. convertObject \<lparr>extends = [], properties = []\<rparr> None = Inr s)"
  (is "convertObject ?ob None = Inr ?s \<and> _ \<and> _")
proof -
  have h: "convertObject ?ob None = Inr ?s"
    by code_simp
  have a: "list_all isOptionalProperty (properties ?ob)"
    by code_simp
  from C10_object_fields [of ?ob None] h a
  have "\<exists>req. field ?s ''required'' = Some (JArray (map JString req)) \<and> req = []"
    by blast
  then have r: "field ?s ''required'' = Some (JArray [])"
    by auto
  from C10_object_fields [of "\<lparr>extends = [], properties = []\<rparr>" None]
  have "\<exists>s. convertObject \<lparr>extends = [], properties = []\<rparr> None = Inr s"
    by simp
  with h r show ?thesis by blast
qed

section \<open>Unions\<close>









section \<open>Security requirements\<close>

lemma isDigit_Auth: "\<not> list_all isDigit (x @ ''Auth'')"
proof -
  have "\<not> isDigit (CHR ''A'')" by code_simp
  then show ?thesis by simp
qed

lemma isArrayIndex_BearerAuth: "\<not> isArrayIndex ''BearerAuth''"
  by code_simp

lemma isArrayIndex_BasicAuth: "\<not> isArrayIndex ''BasicAuth''"
  by code_simp

lemma getNameForAuthScheme_not_index:
  assumes "getNameForAuthScheme scheme = Inr n"
  shows "\<not> isArrayIndex n"
proof (cases scheme)
  case Bearer
  with assms have "n = ''BearerAuth''" by simp
  then show ?thesis by (simp only: isArrayIndex_BearerAuth not_False_eq_True)
next
  case Basic
  with assms have "n = ''BasicAuth''" by simp
  then show ?thesis by (simp only: isArrayIndex_BasicAuth not_False_eq_True)
next
  case (Header h)
  with assms obtain x where "n = x @ ''Auth''" by auto
  then show ?thesis using isDigit_Auth [of x] by (simp only: isArrayIndex_def) blast
next
  case (UnrecognizedAuthScheme tag)
  with assms show ?thesis by simp
qed

lemma getNameForAuthScheme_schemeName:
  "getNameForAuthScheme scheme = Inr n \<Longrightarrow> schemeName scheme = n"
  by (simp add: schemeName_def)

lemma distinct_insertIndexKey:
  "k \<notin> fst ` set ps \<Longrightarrow> distinct (map fst ps) \<Longrightarrow> distinct (map fst (insertIndexKey k v ps))"
proof (induction k v ps rule: insertIndexKey.induct)
  case (1 k v)
  then show ?case by simp
next
  case (2 k v k' v' ps)
  have "fst ` set (insertIndexKey k v ps) = insert k (fst ` set ps)"
    by (rule keys_insertIndexKey)
  with 2 show ?case by auto
qed

lemma distinct_setProperty:
  "distinct (map fst ps) \<Longrightarrow> distinct (map fst (setProperty k v ps))"
proof (cases "k \<in> set (map fst ps)")
  case True
  assume d: "distinct (map fst ps)"
  have "map fst (setProperty k v ps) = map fst ps"
    unfolding setProperty_def using True by (simp only: if_True keys_replace)
  with d show ?thesis by simp
next
  case False
  assume d: "distinct (map fst ps)"
  with False show ?thesis
    by (auto simp: setProperty_def distinct_insertIndexKey)
qed

lemma mapSchemes_names:
  "\<forall>scheme \<in> set ss. \<exists>n. getNameForAuthScheme scheme = Inr n \<Longrightarrow>
   mapSchemes ss = Inr (map (\<lambda>scheme. JObject [(schemeName scheme, JArray [])]) ss)"
proof (induction ss)
  case Nil
  then show ?case by simp
next
  case (Cons scheme rest)
  then obtain n where n: "getNameForAuthScheme scheme = Inr n" by auto
  with Cons show ?case
    by (simp add: setProperty_Nil getNameForAuthScheme_schemeName)
qed

lemma reduceSchemes_names:
  "\<forall>scheme \<in> set ss. \<exists>n. getNameForAuthScheme scheme = Inr n \<Longrightarrow>
   \<exists>acc'. reduceSchemes acc ss = Inr acc'
     \<and> fst ` set acc' = fst ` set acc \<union> schemeName ` set ss
     \<and> (\<forall>k. getProperty acc' k =
           (if k \<in> schemeName ` set ss then Some (JArray []) else getProperty acc k))
     \<and> (distinct (map fst acc) \<longrightarrow> distinct (map fst acc'))
     \<and> (distinct (map schemeName ss) \<and> (\<forall>scheme \<in> set ss. schemeName scheme \<notin> fst ` set acc)
          \<longrightarrow> acc' = acc @ map (\<lambda>scheme. (schemeName scheme, JArray [])) ss)"
proof (induction ss arbitrary: acc)
  case Nil
  then show ?case by simp
next
  case (Cons scheme rest)
  then obtain n where n: "getNameForAuthScheme scheme = Inr n" by auto
  then have sn: "schemeName scheme = n" by (rule getNameForAuthScheme_schemeName)
  have ni: "\<not> isArrayIndex n" using n by (rule getNameForAuthScheme_not_index)
  from Cons.prems have r: "\<forall>scheme \<in> set rest. \<exists>n. getNameForAuthScheme scheme = Inr n" by simp
  from Cons.IH [OF r, of "setProperty n (JArray []) acc"] obtain acc' where
    a: "reduceSchemes (setProperty n (JArray []) acc) rest = Inr acc'" and
    k: "fst ` set acc' = fst ` set (setProperty n (JArray []) acc) \<union> schemeName ` set rest" and
    g: "\<forall>k. getProperty acc' k =
           (if k \<in> schemeName ` set rest then Some (JArray [])
            else getProperty (setProperty n (JArray []) acc) k)" and
    d: "distinct (map fst (setProperty n (JArray []) acc)) \<longrightarrow> distinct (map fst acc')" and
    o: "distinct (map schemeName rest)
          \<and> (\<forall>scheme \<in> set rest. schemeName scheme \<notin> fst ` set (setProperty n (JArray []) acc))
          \<longrightarrow> acc' = setProperty n (JArray []) acc
                @ map (\<lambda>scheme. (schemeName scheme, JArray [])) rest"
    by blast
  have 1: "reduceSchemes acc (scheme # rest) = Inr acc'" using n a by simp
  have 2: "fst ` set acc' = fst ` set acc \<union> schemeName ` set (scheme # rest)"
    using k sn by (auto simp: keys_setProperty)
  have 3: "\<forall>k. getProperty acc' k =
           (if k \<in> schemeName ` set (scheme # rest) then Some (JArray []) else getProperty acc k)"
    using g sn by (auto simp: getProperty_setProperty)
  have 4: "distinct (map fst acc) \<longrightarrow> distinct (map fst acc')"
    using d distinct_setProperty by blast
  have 5: "acc' = acc @ map (\<lambda>scheme. (schemeName scheme, JArray [])) (scheme # rest)"
    if "distinct (map schemeName (scheme # rest))"
      and "\<forall>s \<in> set (scheme # rest). schemeName s \<notin> fst ` set acc"
  proof -
    from that(2) sn have "n \<notin> set (map fst acc)" by auto
    then have new: "setProperty n (JArray []) acc = acc @ [(n, JArray [])]"
      using ni by (rule setProperty_new)
    have "\<forall>s \<in> set rest. schemeName s \<notin> fst ` set (setProperty n (JArray []) acc)"
      using that sn by (auto simp: keys_setProperty) (metis imageI)
    with that(1) o have "acc' = setProperty n (JArray []) acc
                @ map (\<lambda>scheme. (schemeName scheme, JArray [])) rest"
      by simp
    with new sn show ?thesis by simp
  qed
  from 1 2 3 4 5 show ?case by blast
qed

text \<open>
  Claim C7. Let every scheme of \<open>apiAuth\<close> have a computed name. Under the mode \<open>all\<close>,
  \<open>constructEndpointSecurity\<close> returns an array of one requirement object, whose keys are
  the schemes' names, each once and each mapped to the empty scope list (in declared
  order when no two schemes share a name). Under the mode \<open>any\<close>, it returns one
  requirement object per scheme, in declared order, each with the scheme's name as its
  one key, mapped to the empty scope list.
\<close>

theorem C7_security_requirements:
  assumes "\<forall>scheme \<in> set (schemes apiAuth). \<exists>n. getNameForAuthScheme scheme = Inr n"
  shows "(requirement apiAuth = RequireAll \<longrightarrow>
      (\<exists>acc. constructEndpointSecurity apiAuth = Inr [JObject acc]
         \<and> distinct (map fst acc)
         \<and> fst ` set acc = schemeName ` set (schemes apiAuth)
         \<and> (\<forall>scheme \<in> set (schemes apiAuth).
               getProperty acc (schemeName scheme) = Some (JArray []))
         \<and> (distinct (map schemeName (schemes apiAuth)) \<longrightarrow>
               acc = map (\<lambda>scheme. (schemeName scheme, JArray [])) (schemes apiAuth))))
   \<and> (requirement apiAuth = RequireAny \<longrightarrow>
        constructEndpointSecurity apiAuth
          = Inr (map (\<lambda>scheme. JObject [(schemeName scheme, JArray [])]) (schemes apiAuth)))"
proof (intro conjI impI)
  assume m: "requirement apiAuth = RequireAll"
  from reduceSchemes_names [OF assms, of "[]"] obtain acc where
    a: "reduceSchemes [] (schemes apiAuth) = Inr acc" and
    k: "fst ` set acc = schemeName ` set (schemes apiAuth)" and
    g: "\<forall>k. getProperty acc k =
           (if k \<in> schemeName ` set (schemes apiAuth) then Some (JArray [])
            else getProperty [] k)" and
    d: "distinct (map fst acc)" and
    o: "distinct (map schemeName (schemes apiAuth)) \<longrightarrow>
          acc = map (\<lambda>scheme. (schemeName scheme, JArray [])) (schemes apiAuth)"
    by auto
  have "constructEndpointSecurity apiAuth = Inr [JObject acc]"
    using m a by (simp add: constructEndpointSecurity_def)
  moreover have "\<forall>scheme \<in> set (schemes apiAuth).
      getProperty acc (schemeName scheme) = Some (JArray [])"
    using g by simp
  ultimately show "\<exists>acc. constructEndpointSecurity apiAuth = Inr [JObject acc]
         \<and> distinct (map fst acc)
         \<and> fst ` set acc = schemeName ` set (schemes apiAuth)
         \<and> (\<forall>scheme \<in> set (schemes apiAuth).
               getProperty acc (schemeName scheme) = Some (JArray []))
         \<and> (distinct (map schemeName (schemes apiAuth)) \<longrightarrow>
               acc = map (\<lambda>scheme. (schemeName scheme, JArray [])) (schemes apiAuth))"
    using d k o by blast
next
  assume "requirement apiAuth = RequireAny"
  then show "constructEndpointSecurity apiAuth
          = Inr (map (\<lambda>scheme. JObject [(schemeName scheme, JArray [])]) (schemes apiAuth))"
    using mapSchemes_names [OF assms] by (simp add: constructEndpointSecurity_def)
qed

text \<open>The example of the spec: the schemes bearer and basic, under both modes.\<close>

theorem C7_security_requirements_witness:
  "constructEndpointSecurity \<lparr>requirement = RequireAll, schemes = [Bearer, Basic]\<rparr>
     = Inr [JObject [(''BearerAuth'', JArray []), (''BasicAuth'', JArray [])]]
   \<and> constructEndpointSecurity \<lparr>requirement = RequireAny, schemes = [Bearer, Basic]\<rparr>
     = Inr [JObject [(''BearerAuth'', JArray [])], JObject [(''BasicAuth'', JArray [])]]"
proof -
  have n: "\<forall>scheme \<in> set [Bearer, Basic]. \<exists>n. getNameForAuthScheme scheme = Inr n"
    by simp
  have s: "schemeName Bearer = ''BearerAuth''" "schemeName Basic = ''BasicAuth''"
    by (simp_all add: schemeName_def)
  from C7_security_requirements [of "\<lparr>requirement = RequireAll, schemes = [Bearer, Basic]\<rparr>"] n s
  have 1: "constructEndpointSecurity \<lparr>requirement = RequireAll, schemes = [Bearer, Basic]\<rparr>
     = Inr [JObject [(''BearerAuth'', JArray []), (''BasicAuth'', JArray [])]]"
    by auto
  from C7_security_requirements [of "\<lparr>requirement = RequireAny, schemes = [Bearer, Basic]\<rparr>"] n s
  have 2: "constructEndpointSecurity \<lparr>requirement = RequireAny, schemes = [Bearer, Basic]\<rparr>
     = Inr [JObject [(''BearerAuth'', JArray [])], JObject [(''BasicAuth'', JArray [])]]"
    by auto
  from 1 2 show ?thesis by simp
qed

section \<open>Errors\<close>

lemma failure_simps [simp]: "failure (Inl e) = Some e" "failure (Inr v) = None"
  by (simp_all add: failure_def)

lemma firstError_simps [simp]: "firstError [] = None" "firstError (e # es) = Some e"
  by (simp_all add: firstError_def)

lemma firstError_append:
  "firstError (xs @ ys) = (case firstError xs of None \<Rightarrow> firstError ys | Some e \<Rightarrow> Some e)"
  by (cases xs) simp_all

lemma failure_None_iff: "failure r = None \<longleftrightarrow> (\<exists>v. r = Inr v)"
  by (cases r) simp_all

lemma failure_convertPrimitiveType:
  "failure (convertPrimitiveType p) = firstError (primitiveTagErrors p)"
  by (cases p) simp_all

lemma failure_convertTypeReference_aux:
  "failure (convertTypeReference t) = firstError (tagErrors t)"
  "failure (convertContainerType c) = firstError (containerTagErrors c)"
  by (induction t and c)
     (auto simp: failure_convertPrimitiveType split: sum.splits)

lemma failure_convertProperties:
  "failure (convertProperties declared ps req)
     = firstError (concat (map (\<lambda>p. tagErrors (ObjectProperty.valueType p)) declared))"
proof (induction declared arbitrary: ps req)
  case Nil
  then show ?case by simp
next
  case (Cons p rest)
  show ?case
  proof (cases "convertTypeReference (ObjectProperty.valueType p)")
    case (Inl e)
    with failure_convertTypeReference_aux(1) [of "ObjectProperty.valueType p"]
    have "firstError (tagErrors (ObjectProperty.valueType p)) = Some e" by simp
    with Inl show ?thesis by (simp add: firstError_append)
  next
    case (Inr v)
    with failure_convertTypeReference_aux(1) [of "ObjectProperty.valueType p"]
    have "firstError (tagErrors (ObjectProperty.valueType p)) = None" by simp
    with Inr Cons.IH show ?thesis by (simp add: firstError_append)
  qed
qed

lemma failure_convertSingleUnionType:
  "failure (convertSingleUnionType discr t) = firstError (tagErrors (SingleUnionType.valueType t))"
  using failure_convertTypeReference_aux(1) [of "SingleUnionType.valueType t"]
  by (cases "SingleUnionType.valueType t")
     (auto simp: convertSingleUnionType_def split: sum.splits)

lemma failure_convertSingleUnionTypes:
  "failure (convertSingleUnionTypes discr ts)
     = firstError (concat (map (\<lambda>t. tagErrors (SingleUnionType.valueType t)) ts))"
proof (induction ts)
  case Nil
  then show ?case by simp
next
  case (Cons t rest)
  with failure_convertSingleUnionType [of discr t] show ?case
    by (auto simp: firstError_append split: sum.splits option.splits)
qed

lemma failure_convertShape:
  "failure (convertShape sh d) = firstError (shapeTagErrors sh)"
proof (cases sh)
  case (Alias a)
  with failure_convertTypeReference_aux(1) [of "aliasOf a"] show ?thesis
    by (auto simp: convertShape_def convertAlias_def split: sum.splits)
next
  case (Enum e)
  then show ?thesis by (simp add: convertShape_def convertEnum_def)
next
  case (Object ob)
  with failure_convertProperties [of "properties ob" "[]" "[]"] show ?thesis
    by (auto simp: convertShape_def convertObject_def Let_def split: sum.splits)
next
  case (Union u)
  with failure_convertSingleUnionTypes [of "discriminant u" "types u"] show ?thesis
    by (auto simp: convertShape_def convertUnion_def split: sum.splits)
next
  case (UnrecognizedType tag)
  then show ?thesis by (simp add: convertShape_def)
qed

lemma failure_getNameForAuthScheme:
  "failure (getNameForAuthScheme scheme) = firstError (schemeTagErrors scheme)"
  by (cases scheme) simp_all

lemma failure_securitySchemeObject:
  "failure (securitySchemeObject scheme) = firstError (schemeTagErrors scheme)"
  by (cases scheme) simp_all

lemma failure_reduceSchemes:
  "failure (reduceSchemes acc ss) = firstError (concat (map schemeTagErrors ss))"
proof (induction ss arbitrary: acc)
  case Nil
  then show ?case by simp
next
  case (Cons scheme rest)
  with failure_getNameForAuthScheme [of scheme] show ?case
    by (auto simp: firstError_append split: sum.splits option.splits)
qed

lemma failure_mapSchemes:
  "failure (mapSchemes ss) = firstError (concat (map schemeTagErrors ss))"
proof (induction ss)
  case Nil
  then show ?case by simp
next
  case (Cons scheme rest)
  with failure_getNameForAuthScheme [of scheme] show ?case
    by (auto simp: firstError_append split: sum.splits option.splits)
qed

lemma failure_securitySchemesLoop:
  "failure (securitySchemesLoop acc ss) = firstError (concat (map schemeTagErrors ss))"
proof (induction ss arbitrary: acc)
  case Nil
  then show ?case by simp
next
  case (Cons scheme rest)
  with failure_getNameForAuthScheme [of scheme] failure_securitySchemeObject [of scheme]
  show ?case
    by (auto simp: firstError_append split: sum.splits option.splits)
qed

lemma closed_tagErrors_aux:
  "closedTypeReference t \<longrightarrow> tagErrors t = []"
  "closedContainerType c \<longrightarrow> containerTagErrors c = []"
proof (induction t and c)
  case (Primitive p)
  then show ?case by (cases p) simp_all
qed simp_all

lemma closedShape_tagErrors: "closedShape sh \<Longrightarrow> shapeTagErrors sh = []"
  by (cases sh) (auto simp: list_all_iff closed_tagErrors_aux(1))

lemma closedAuthScheme_tagErrors: "closedAuthScheme scheme \<Longrightarrow> schemeTagErrors scheme = []"
  by (cases scheme) simp_all

lemma closedApiAuth_tagErrors:
  "closedApiAuth apiAuth \<Longrightarrow>
     requirementTagErrors (requirement apiAuth) = []
     \<and> concat (map schemeTagErrors (schemes apiAuth)) = []"
  by (cases "requirement apiAuth")
     (auto simp: closedApiAuth_def list_all_iff closedAuthScheme_tagErrors)

text \<open>
  Claim C8, as amended. Each of \<open>convertTypeReference\<close>, \<open>convertType\<close>,
  \<open>constructEndpointSecurity\<close> and \<open>constructSecuritySchemes\<close> throws exactly when a tag
  that it inspects lies outside its closed set, and then it throws the error of the
  first such tag in the order of inspection. Inspected are the type shape and, at every
  position but the key type of a map, the reference kind, the container kind and the
  primitive kind; the kind of every auth scheme; and, by \<open>constructEndpointSecurity\<close>
  only, the requirement mode, before the schemes. Every input built only from the
  closed-set variants is converted, and there is no other error.
\<close>

theorem C8_errors:
  "failure (convertTypeReference t) = firstError (tagErrors t)
   \<and> failure (convertType typeDeclaration) = firstError (shapeTagErrors (shape typeDeclaration))
   \<and> failure (constructEndpointSecurity apiAuth)
       = firstError (requirementTagErrors (requirement apiAuth)
                     @ concat (map schemeTagErrors (schemes apiAuth)))
   \<and> failure (constructSecuritySchemes apiAuth)
       = firstError (concat (map schemeTagErrors (schemes apiAuth)))
   \<and> (closedTypeReference t \<longrightarrow> (\<exists>v. convertTypeReference t = Inr v))
   \<and> (closedShape (shape typeDeclaration) \<longrightarrow> (\<exists>v. convertType typeDeclaration = Inr v))
   \<and> (closedApiAuth apiAuth \<longrightarrow>
        (\<exists>v. constructEndpointSecurity apiAuth = Inr v)
        \<and> (\<exists>v. constructSecuritySchemes apiAuth = Inr v))"
proof -
  have 1: "failure (convertTypeReference t) = firstError (tagErrors t)"
    by (rule failure_convertTypeReference_aux)
  have 2: "failure (convertType typeDeclaration) = firstError (shapeTagErrors (shape typeDeclaration))"
    using failure_convertShape [of "shape typeDeclaration" "TypeDeclaration.docs typeDeclaration"]
    by (auto simp: convertType_def split: sum.splits)
  have 3: "failure (constructEndpointSecurity apiAuth)
       = firstError (requirementTagErrors (requirement apiAuth)
                     @ concat (map schemeTagErrors (schemes apiAuth)))"
    using failure_reduceSchemes [of "[]" "schemes apiAuth"] failure_mapSchemes [of "schemes apiAuth"]
    by (cases "requirement apiAuth")
       (auto simp: constructEndpointSecurity_def split: sum.splits)
  have 4: "failure (constructSecuritySchemes apiAuth)
       = firstError (concat (map schemeTagErrors (schemes apiAuth)))"
    using failure_securitySchemesLoop [of "[]" "schemes apiAuth"]
    by (auto simp: constructSecuritySchemes_def split: sum.splits)
  have 5: "closedTypeReference t \<longrightarrow> (\<exists>v. convertTypeReference t = Inr v)"
    using 1 closed_tagErrors_aux(1) [of t] by (auto simp: failure_None_iff [symmetric])
  have 6: "closedShape (shape typeDeclaration) \<longrightarrow> (\<exists>v. convertType typeDeclaration = Inr v)"
    using 2 closedShape_tagErrors [of "shape typeDeclaration"]
    by (auto simp: failure_None_iff [symmetric])
  have 7: "closedApiAuth apiAuth \<longrightarrow>
        (\<exists>v. constructEndpointSecurity apiAuth = Inr v)
        \<and> (\<exists>v. constructSecuritySchemes apiAuth = Inr v)"
  proof
    assume "closedApiAuth apiAuth"
    then have e: "requirementTagErrors (requirement apiAuth) = []"
      "concat (map schemeTagErrors (schemes apiAuth)) = []"
      using closedApiAuth_tagErrors [of apiAuth] by blast+
    have "failure (constructEndpointSecurity apiAuth) = None"
      "failure (constructSecuritySchemes apiAuth) = None"
      unfolding 3 4 e by simp_all
    then show "(\<exists>v. constructEndpointSecurity apiAuth = Inr v)
        \<and> (\<exists>v. constructSecuritySchemes apiAuth = Inr v)"
      by (simp add: failure_None_iff)
  qed
  from 1 2 3 4 5 6 7 show ?thesis by blast
qed

text \<open>
  An unrecognised primitive kind inside a list makes the conversion fail with the error
  of that tag; inputs of the closed set are converted, also an object without
  properties under an empty path, a union without variants and an auth declaration
  without schemes.
\<close>

theorem C8_errors_witness:
  "failure (convertTypeReference
       (Container (ListType (Primitive (UnrecognizedPrimitive ''CHAR'')))))
     = Some (UnknownPrimitiveType ''CHAR'')
   \<and> failure (constructEndpointSecurity
       \<lparr>requirement = UnrecognizedRequirement ''NONE'',
        schemes = [UnrecognizedAuthScheme ''oauth'']\<rparr>)
     = Some (UnknownAuthSchemeRequirement ''NONE'')
   \<and> (\<exists>v. convertTypeReference
         (Container (MapType (Primitive PString) (Container (OptionalType Unknown)))) = Inr v)
   \<and> (\<exists>v. convertType
         \<lparr>TypeDeclaration.name = \<lparr>fernFilepath = [], DeclaredTypeName.name = ''Empty''\<rparr>,
          shape = Object \<lparr>extends = [], properties = []\<rparr>,
          TypeDeclaration.docs = None\<rparr> = Inr v)
   \<and> (\<exists>v. convertType
         \<lparr>TypeDeclaration.name = \<lparr>fernFilepath = [], DeclaredTypeName.name = ''Never''\<rparr>,
          shape = Union \<lparr>discriminant = ''type'', types = []\<rparr>,
          TypeDeclaration.docs = None\<rparr> = Inr v)
   \<and> (\<exists>v. constructEndpointSecurity \<lparr>requirement = RequireAny, schemes = []\<rparr> = Inr v)
   \<and> (\<exists>v. constructSecuritySchemes \<lparr>requirement = RequireAny, schemes = []\<rparr> = Inr v)"
proof -
  have 1: "failure (convertTypeReference
       (Container (ListType (Primitive (UnrecognizedPrimitive ''CHAR'')))))
     = Some (UnknownPrimitiveType ''CHAR'')"
    using C8_errors [of "Container (ListType (Primitive (UnrecognizedPrimitive ''CHAR'')))"]
    by simp
  have 2: "failure (constructEndpointSecurity
       \<lparr>requirement = UnrecognizedRequirement ''NONE'',
        schemes = [UnrecognizedAuthScheme ''oauth'']\<rparr>)
     = Some (UnknownAuthSchemeRequirement ''NONE'')"
    using C8_errors [of _ _ "\<lparr>requirement = UnrecognizedRequirement ''NONE'',
        schemes = [UnrecognizedAuthScheme ''oauth'']\<rparr>"]
    by simp
  have 3: "\<exists>v. convertTypeReference
         (Container (MapType (Primitive PString) (Container (OptionalType Unknown)))) = Inr v"
    using C8_errors [of "Container (MapType (Primitive PString) (Container (OptionalType Unknown)))"]
    by simp
  have 4: "\<exists>v. convertType
         \<lparr>TypeDeclaration.name = \<lparr>fernFilepath = [], DeclaredTypeName.name = ''Empty''\<rparr>,
          shape = Object \<lparr>extends = [], properties = []\<rparr>,
          TypeDeclaration.docs = None\<rparr> = Inr v"
    using C8_errors [of _
         "\<lparr>TypeDeclaration.name = \<lparr>fernFilepath = [], DeclaredTypeName.name = ''Empty''\<rparr>,
          shape = Object \<lparr>extends = [], properties = []\<rparr>,
          TypeDeclaration.docs = None\<rparr>"]
    by simp
  have 5: "\<exists>v. convertType
         \<lparr>TypeDeclaration.name = \<lparr>fernFilepath = [], DeclaredTypeName.name = ''Never''\<rparr>,
          shape = Union \<lparr>discriminant = ''type'', types = []\<rparr>,
          TypeDeclaration.docs = None\<rparr> = Inr v"
    using C8_errors [of _
         "\<lparr>TypeDeclaration.name = \<lparr>fernFilepath = [], DeclaredTypeName.name = ''Never''\<rparr>,
          shape = Union \<lparr>discriminant = ''type'', types = []\<rparr>,
          TypeDeclaration.docs = None\<rparr>"]
    by simp
  have 6: "(\<exists>v. constructEndpointSecurity \<lparr>requirement = RequireAny, schemes = []\<rparr> = Inr v)
    \<and> (\<exists>v. constructSecuritySchemes \<lparr>requirement = RequireAny, schemes = []\<rparr> = Inr v)"
    using C8_errors [of _ _ "\<lparr>requirement = RequireAny, schemes = []\<rparr>"]
    by (simp add: closedApiAuth_def)
  from 1 2 3 4 5 6 show ?thesis by blast
qed

text \<open>
  The claim as it was stated does not hold: a map whose key type carries an
  unrecognised primitive kind is converted (the key type is never looked at), and
  \<open>constructSecuritySchemes\<close> converts an auth declaration whose requirement mode is not
  recognised (it never reads the mode).
\<close>

theorem C8_counterexample:
  "\<not> closedTypeReference
       (Container (MapType (Primitive (UnrecognizedPrimitive ''CHAR'')) (Primitive PString)))
   \<and> convertTypeReference
       (Container (MapType (Primitive (UnrecognizedPrimitive ''CHAR'')) (Primitive PString)))
     = Inr (JObject [(''type'', JString ''object''),
                     (''additionalProperties'', JObject [(''type'', JString ''string'')])])
   \<and> \<not> closedApiAuth \<lparr>requirement = UnrecognizedRequirement ''NONE'', schemes = [Bearer]\<rparr>
   \<and> constructSecuritySchemes \<lparr>requirement = UnrecognizedRequirement ''NONE'', schemes = [Bearer]\<rparr>
     = Inr (JObject [(''BearerAuth'',
                      JObject [(''type'', JString ''http''), (''scheme'', JString ''bearer'')])])"
  by code_simp

section \<open>The words of a phrase\<close>

lemma litMatch_count:
  "(n', p', s') \<in> set (litMatch w (n, p, s)) \<Longrightarrow> n' = n + length w"
proof (induction w arbitrary: n p s)
  case Nil
  then show ?case by simp
next
  case (Cons a as)
  show ?case
  proof (cases s)
    case Nil
    with Cons.prems show ?thesis by simp
  next
    case (Cons c cs)
    with Cons.prems have "a = c" and "(n', p', s') \<in> set (litMatch as (Suc n, Some c, cs))"
      by (auto split: if_splits)
    from Cons.IH [OF this(2)] show ?thesis by simp
  qed
qed

lemma starMatch_count:
  "(n', p', s') \<in> set (starMatch P (n, p, s)) \<Longrightarrow> n \<le> n'"
proof (induction s arbitrary: n p)
  case Nil
  then show ?case by simp
next
  case (Cons c cs)
  then show ?case by (fastforce split: if_splits)
qed

lemma starMatch_nonempty: "starMatch P st \<noteq> []"
proof -
  obtain n p s where "st = (n, p, s)" by (cases st)
  then show ?thesis by (cases s) simp_all
qed

lemma rxMatch_count:
  "(n', p', s') \<in> set (rxMatch r (n, p, s)) \<Longrightarrow> n + minLen r \<le> n'"
proof (induction r arbitrary: n p s n' p' s')
  case (Cls P)
  then show ?case by (auto split: list.splits if_splits)
next
  case (Lit w)
  then show ?case using litMatch_count by fastforce
next
  case (Seq a b)
  from Seq.prems obtain m q u where
    1: "(m, q, u) \<in> set (rxMatch a (n, p, s))" and
    2: "(n', p', s') \<in> set (rxMatch b (m, q, u))"
    by auto
  from Seq.IH(1) [OF 1] Seq.IH(2) [OF 2] show ?case by simp
next
  case (Alt a b)
  then show ?case by fastforce
next
  case (Opt a)
  then show ?case by fastforce
next
  case (Star P)
  then show ?case using starMatch_count by fastforce
next
  case (Plus P)
  then show ?case using starMatch_count by (fastforce split: list.splits if_splits)
next
  case (Ahead a)
  then show ?case by (auto split: if_splits)
next
  case (NotAhead a)
  then show ?case by (auto split: if_splits)
next
  case WordB
  then show ?case by (auto split: if_splits)
next
  case Eos
  then show ?case by (auto split: if_splits)
qed

lemma execAt_positive:
  assumes "0 < minLen r" and "execAt r p s = Some n"
  shows "0 < n"
proof -
  from assms(2) obtain q u rest where "rxMatch r (0, p, s) = (n, q, u) # rest"
    by (auto simp: execAt_def split: list.splits)
  then have "(n, q, u) \<in> set (rxMatch r (0, p, s))" by simp
  from rxMatch_count [OF this] assms(1) show ?thesis by simp
qed

lemma minLen_reUnicodeWord: "minLen reUnicodeWord = 1"
  by (simp add: reUnicodeWord_def rsOrdUpper_def rsOrdLower_def rsOptContrLower_def
      rsOptContrUpper_def)

lemma minLen_reAsciiWord: "minLen reAsciiWord = 1"
  by (simp add: reAsciiWord_def)

lemma matchAllFrom_words_nonempty:
  assumes "\<And>p s n. execAt r p s = Some n \<Longrightarrow> 0 < n"
  shows "w \<in> set (matchAllFrom r k p s) \<Longrightarrow> w \<noteq> []"
proof (induction s arbitrary: k p)
  case Nil
  then show ?case by simp
next
  case (Cons c cs)
  show ?case
  proof (cases "0 < k")
    case True
    with Cons show ?thesis by simp
  next
    case False
    show ?thesis
    proof (cases "execAt r p (c # cs)")
      case None
      with False Cons show ?thesis by simp
    next
      case (Some n)
      with assms have "0 < n" by blast
      then have "take n (c # cs) \<noteq> []" by (cases n) simp_all
      with False Some Cons show ?thesis by auto
    qed
  qed
qed

lemma matchAllFrom_finds:
  assumes "\<And>p c cs. Q c \<Longrightarrow> execAt r p (c # cs) \<noteq> None"
  shows "\<exists>c \<in> set s. Q c \<Longrightarrow> matchAllFrom r 0 p s \<noteq> []"
proof (induction s arbitrary: p)
  case Nil
  then show ?case by simp
next
  case (Cons c cs)
  show ?case
  proof (cases "execAt r p (c # cs)")
    case None
    with assms have "\<not> Q c" by blast
    with Cons.prems have "\<exists>c \<in> set cs. Q c" by simp
    from Cons.IH [OF this] None show ?thesis by simp
  next
    case (Some n)
    then show ?thesis by simp
  qed
qed

lemma rxMatch_Alt: "rxMatch (Alt a b) st = rxMatch a st @ rxMatch b st"
  by simp

lemma rxMatch_Opt_nonempty: "rxMatch (Opt a) st \<noteq> []"
  by simp

lemma rxMatch_Seq_nonempty:
  "x \<in> set (rxMatch a st) \<Longrightarrow> rxMatch b x \<noteq> [] \<Longrightarrow> rxMatch (Seq a b) st \<noteq> []"
  by auto

lemma rxMatch_Plus_nonempty: "P c \<Longrightarrow> rxMatch (Plus P) (n, p, c # cs) \<noteq> []"
  by (simp add: starMatch_nonempty)

lemma rxMatch_Plus_Opt_nonempty:
  assumes "P c"
  shows "rxMatch (Seq (Plus P) (Opt a)) (n, p, c # cs) \<noteq> []"
proof -
  from assms obtain x where "x \<in> set (rxMatch (Plus P) (n, p, c # cs))"
    using rxMatch_Plus_nonempty [of P c n p cs] by (cases "rxMatch (Plus P) (n, p, c # cs)") auto
  then show ?thesis using rxMatch_Opt_nonempty by (rule rxMatch_Seq_nonempty)
qed

lemma isAlnum_cases:
  "isAlnum c \<Longrightarrow> rsMiscLower c \<or> rsUpper c \<or> isDigit c"
  unfolding isAlnum_def isAsciiLetter_def isAsciiLower_def isAsciiUpper_def
      rsMiscLower_def rsLower_def rsUpper_def
  by blast

lemma isAlnum_code: "isAlnum c \<Longrightarrow> 48 \<le> charCode c \<and> charCode c \<le> 122"
  unfolding isAlnum_def isAsciiLetter_def isAsciiLower_def isAsciiUpper_def isDigit_def
      inRange_def
  by linarith

lemma execAt_reUnicodeWord:
  assumes "isAlnum c"
  shows "execAt reUnicodeWord p (c # cs) \<noteq> None"
proof -
  let ?st = "(0, p, c # cs)"
  have lower: "rxMatch (Seq (Opt (Cls rsUpper)) (Seq (Plus rsMiscLower) rsOptContrLower)) ?st \<noteq> []"
    if "rsMiscLower c"
  proof -
    have "?st \<in> set (rxMatch (Opt (Cls rsUpper)) ?st)" by simp
    moreover have "rxMatch (Seq (Plus rsMiscLower) rsOptContrLower) ?st \<noteq> []"
      unfolding rsOptContrLower_def using that by (rule rxMatch_Plus_Opt_nonempty)
    ultimately show ?thesis by (rule rxMatch_Seq_nonempty)
  qed
  have upper: "rxMatch (Seq (Plus rsUpper) rsOptContrUpper) ?st \<noteq> []" if "rsUpper c"
    unfolding rsOptContrUpper_def using that by (rule rxMatch_Plus_Opt_nonempty)
  have digit: "rxMatch (Plus isDigit) ?st \<noteq> []" if "isDigit c"
    using that by (rule rxMatch_Plus_nonempty)
  from isAlnum_cases [OF assms] lower upper digit
  have "rxMatch reUnicodeWord ?st \<noteq> []"
    unfolding reUnicodeWord_def rxMatch_Alt append_is_Nil_conv by blast
  then show ?thesis
    by (auto simp: execAt_def split: list.splits)
qed

lemma isAlnum_asciiWordChar: "isAlnum c \<Longrightarrow> asciiWordChar c"
  unfolding isAlnum_def isAsciiLetter_def isAsciiLower_def isAsciiUpper_def isDigit_def
      asciiWordChar_def inRange_def
  by linarith

lemma execAt_reAsciiWord:
  assumes "isAlnum c"
  shows "execAt reAsciiWord p (c # cs) \<noteq> None"
proof -
  have "rxMatch reAsciiWord (0, p, c # cs) \<noteq> []"
    unfolding reAsciiWord_def using isAlnum_asciiWordChar [OF assms]
    by (rule rxMatch_Plus_nonempty)
  then show ?thesis
    by (auto simp: execAt_def split: list.splits)
qed

lemma matchAll_alnum:
  assumes "\<And>p c cs. isAlnum c \<Longrightarrow> execAt r p (c # cs) \<noteq> None"
    and "0 < minLen r" and "\<exists>c \<in> set s. isAlnum c"
  obtains w ws where "matchAll r s = w # ws" and "w \<noteq> []"
proof -
  have "matchAllFrom r 0 None s \<noteq> []"
    using assms(1,3) by (rule matchAllFrom_finds [where Q = isAlnum])
  then obtain w ws where m: "matchAllFrom r 0 None s = w # ws"
    by (cases "matchAllFrom r 0 None s") auto
  have "w \<noteq> []"
  proof (rule matchAllFrom_words_nonempty)
    show "\<And>p s n. execAt r p s = Some n \<Longrightarrow> 0 < n"
      using assms(2) by (rule execAt_positive)
    show "w \<in> set (matchAllFrom r 0 None s)" using m by simp
  qed
  with m that show ?thesis by (simp add: matchAll_def)
qed

lemma words_alnum:
  assumes "\<exists>c \<in> set s. isAlnum c"
  obtains w ws where "words s = w # ws" and "w \<noteq> []"
proof (cases "hasUnicodeWord s")
  case True
  obtain w ws where "matchAll reUnicodeWord s = w # ws" and "w \<noteq> []"
    by (rule matchAll_alnum [OF execAt_reUnicodeWord _ assms]) (auto simp: minLen_reUnicodeWord)
  with True that show ?thesis by (simp add: words_def unicodeWords_def)
next
  case False
  obtain w ws where "matchAll reAsciiWord s = w # ws" and "w \<noteq> []"
    by (rule matchAll_alnum [OF execAt_reAsciiWord _ assms]) (auto simp: minLen_reAsciiWord)
  with False that show ?thesis by (simp add: words_def asciiWords_def)
qed

lemma camelReduce_nonempty: "result \<noteq> [] \<Longrightarrow> camelReduce result first ws \<noteq> []"
  by (induction ws arbitrary: result first) simp_all

lemma toUpperCaseChar_nonempty: "toUpperCaseChar c \<noteq> []"
  by (simp add: toUpperCaseChar_def)

lemma upperFirst_nonempty: "s \<noteq> [] \<Longrightarrow> upperFirst s \<noteq> []"
  by (cases s) (simp_all add: upperFirst_def toUpperCaseChar_nonempty)

lemma deburrLetter_alnum: "isAlnum c \<Longrightarrow> deburrLetter c = [c]"
  using isAlnum_code [of c] by (simp add: deburrLetter_def inRange_def)

lemma rsApos_alnum: "isAlnum c \<Longrightarrow> \<not> rsApos c"
  using isAlnum_code [of c] by (simp add: rsApos_def)

lemma deburred_alnum:
  assumes "c \<in> set s" and "isAlnum c"
  shows "c \<in> set (filter (\<lambda>c. \<not> rsApos c) (deburr s))"
proof -
  from assms have "c \<in> set (deburr s)"
    using deburrLetter_alnum [OF assms(2)] by (auto simp: deburr_def intro!: bexI [of _ c])
  with rsApos_alnum [OF assms(2)] show ?thesis by simp
qed

lemma camelCase_nonempty:
  assumes "\<exists>c \<in> set s. isAlnum c"
  shows "camelCase s \<noteq> []"
proof -
  from assms have "\<exists>c \<in> set (filter (\<lambda>c. \<not> rsApos c) (deburr s)). isAlnum c"
    using deburred_alnum by blast
  then obtain w ws where w: "words (filter (\<lambda>c. \<not> rsApos c) (deburr s)) = w # ws" and "w \<noteq> []"
    by (rule words_alnum)
  then have "toLowerCase w \<noteq> []" by (simp add: toLowerCase_def)
  then have "camelReduce (toLowerCase w) False ws \<noteq> []" by (rule camelReduce_nonempty)
  with w show ?thesis by (simp add: camelCase_def)
qed

lemma set_join: "x \<in> set xs \<Longrightarrow> set x \<subseteq> set (join sep xs)"
  by (induction sep xs rule: join.induct) auto

section \<open>Phrases of lower-case words\<close>

lemma charCode_space: "charCode (CHR '' '') = 32"
  by (simp add: charCode_def)

lemma lowerOrSpace_code:
  "lowerOrSpace c \<Longrightarrow> charCode c = 32 \<or> (97 \<le> charCode c \<and> charCode c \<le> 122)"
  unfolding lowerOrSpace_def isAsciiLower_def inRange_def using charCode_space by auto

lemma lowerOrSpace_classes:
  assumes "lowerOrSpace c"
  shows "\<not> isAsciiUpper c" "\<not> isDigit c" "isAlnum c \<or> c = CHR '' ''"
    "deburrLetter c = [c]" "\<not> rsApos c"
proof -
  note code = lowerOrSpace_code [OF assms]
  from code show "\<not> isAsciiUpper c" by (auto simp: isAsciiUpper_def inRange_def)
  from code show "\<not> isDigit c" by (auto simp: isDigit_def inRange_def)
  from assms show "isAlnum c \<or> c = CHR '' ''"
    by (auto simp: lowerOrSpace_def isAlnum_def isAsciiLetter_def)
  from code have "charCode c \<le> 122" by auto
  then show "deburrLetter c = [c]" by (simp add: deburrLetter_def inRange_def)
  from code show "\<not> rsApos c" by (auto simp: rsApos_def)
qed

lemma isAsciiLower_classes:
  assumes "isAsciiLower c"
  shows "asciiWordChar c" "toLowerCaseChar c = c"
  using assms
  by (auto simp: isAsciiLower_def asciiWordChar_def toLowerCaseChar_def inRange_def)

lemma asciiWordChar_space: "\<not> asciiWordChar (CHR '' '')"
  by (simp add: asciiWordChar_def inRange_def charCode_space)

lemma set_join_lower:
  "\<forall>w \<in> set ws. list_all isAsciiLower w \<Longrightarrow> \<forall>c \<in> set (join '' '' ws). lowerOrSpace c"
  by (induction "'' ''" ws rule: join.induct) (auto simp: lowerOrSpace_def list_all_iff)

lemma deburr_id: "\<forall>c \<in> set s. deburrLetter c = [c] \<Longrightarrow> deburr s = s"
  by (induction s) (simp_all add: deburr_def)

lemma execAt_reHasUnicodeWord_Nil: "execAt reHasUnicodeWord p [] = None"
  by (simp add: execAt_def reHasUnicodeWord_def)

lemma execAt_reHasUnicodeWord_lower:
  assumes "\<forall>c \<in> set s. lowerOrSpace c"
  shows "execAt reHasUnicodeWord p s = None"
proof (cases s)
  case Nil
  then show ?thesis by (simp add: execAt_reHasUnicodeWord_Nil)
next
  case (Cons c cs)
  with assms have c: "lowerOrSpace c" by simp
  note cc = lowerOrSpace_classes [OF c]
  have next_char: "rxMatch (Cls isAsciiUpper) (n, q, cs) = []" "rxMatch (Cls isDigit) (n, q, cs) = []"
    for n q
  proof -
    show "rxMatch (Cls isAsciiUpper) (n, q, cs) = []"
    proof (cases cs)
      case Nil
      then show ?thesis by simp
    next
      case (Cons d ds)
      with assms \<open>s = c # cs\<close> have "lowerOrSpace d" by simp
      from lowerOrSpace_classes(1) [OF this] Cons show ?thesis by simp
    qed
    show "rxMatch (Cls isDigit) (n, q, cs) = []"
    proof (cases cs)
      case Nil
      then show ?thesis by simp
    next
      case (Cons d ds)
      with assms \<open>s = c # cs\<close> have "lowerOrSpace d" by simp
      from lowerOrSpace_classes(2) [OF this] Cons show ?thesis by simp
    qed
  qed
  have "rxMatch reHasUnicodeWord (0, p, c # cs) = []"
    using cc(1,2,3) next_char by (simp add: reHasUnicodeWord_def)
  with Cons show ?thesis by (simp add: execAt_def)
qed

lemma testFrom_lower:
  "\<forall>c \<in> set s. lowerOrSpace c \<Longrightarrow> \<not> testFrom reHasUnicodeWord p s"
proof (induction s arbitrary: p)
  case Nil
  then show ?case by (simp add: execAt_reHasUnicodeWord_Nil)
next
  case (Cons c cs)
  from Cons.prems have "execAt reHasUnicodeWord p (c # cs) = None"
    by (rule execAt_reHasUnicodeWord_lower)
  moreover from Cons have "\<not> testFrom reHasUnicodeWord (Some c) cs" by simp
  ultimately show ?case by simp
qed

lemma execAt_Plus_prev: "execAt (Plus P) p s = execAt (Plus P) q s"
  by (cases s) (simp_all add: execAt_def)

lemma matchAllFrom_Plus_prev:
  "matchAllFrom (Plus P) k p s = matchAllFrom (Plus P) k q s"
proof (induction s arbitrary: k p q)
  case Nil
  then show ?case by simp
next
  case (Cons c cs)
  then show ?case using execAt_Plus_prev [of P p "c # cs" q] by simp
qed

lemma matchAllFrom_skip:
  "matchAllFrom (Plus P) (length xs) p (xs @ rest) = matchAllFrom (Plus P) 0 q rest"
proof (induction xs arbitrary: p)
  case Nil
  then show ?case by (simp add: matchAllFrom_Plus_prev [of P 0 p rest q])
next
  case (Cons x xs)
  then show ?case by simp
qed

lemma starMatch_run:
  "list_all P w \<Longrightarrow> rest = [] \<or> \<not> P (hd rest) \<Longrightarrow>
   \<exists>q more. starMatch P (n, p, w @ rest) = (n + length w, q, rest) # more"
proof (induction w arbitrary: n p)
  case Nil
  then show ?case by (cases rest) auto
next
  case (Cons c w)
  from Cons.prems have "P c" "list_all P w" by simp_all
  from Cons.IH [OF this(2) Cons.prems(2), of "Suc n" "Some c"] \<open>P c\<close> show ?case by auto
qed

lemma execAt_Plus_run:
  assumes "w \<noteq> []" "list_all P w" "rest = [] \<or> \<not> P (hd rest)"
  shows "execAt (Plus P) p (w @ rest) = Some (length w)"
proof -
  from assms(1) obtain c w' where w: "w = c # w'" by (cases w) auto
  with assms(2) have "P c" "list_all P w'" by simp_all
  from starMatch_run [OF this(2) assms(3), of 1 "Some c"] obtain q more where
    "starMatch P (1, Some c, w' @ rest) = (1 + length w', q, rest) # more" by blast
  with w \<open>P c\<close> show ?thesis by (simp add: execAt_def)
qed

lemma matchAllFrom_word:
  assumes "w \<noteq> []" "list_all P w" "rest = [] \<or> \<not> P (hd rest)"
  shows "matchAllFrom (Plus P) 0 p (w @ rest) = w # matchAllFrom (Plus P) 0 q rest"
proof -
  from assms(1) obtain c w' where w: "w = c # w'" by (cases w) auto
  have "matchAllFrom (Plus P) 0 p (w @ rest)
      = take (length w) (w @ rest) # matchAllFrom (Plus P) (length w - 1) (Some c) (w' @ rest)"
    using execAt_Plus_run [OF assms, of p] w by simp
  also have "matchAllFrom (Plus P) (length w - 1) (Some c) (w' @ rest)
      = matchAllFrom (Plus P) 0 q rest"
    using matchAllFrom_skip [of P w' "Some c" rest q] w by simp
  finally show ?thesis by simp
qed

lemma matchAllFrom_separator:
  "\<not> P c \<Longrightarrow> matchAllFrom (Plus P) 0 p (c # cs) = matchAllFrom (Plus P) 0 (Some c) cs"
  by (simp add: execAt_def)

lemma matchAllFrom_join:
  "\<forall>w \<in> set ws. w \<noteq> [] \<and> list_all isAsciiLower w \<Longrightarrow>
   matchAllFrom (Plus asciiWordChar) 0 p (join '' '' ws) = ws"
proof (induction "'' ''" ws arbitrary: p rule: join.induct)
  case 1
  then show ?case by simp
next
  case (2 x)
  then have "x \<noteq> []" "list_all asciiWordChar x"
    by (auto simp: list_all_iff isAsciiLower_classes(1))
  from matchAllFrom_word [OF this, of "[]" p None] show ?case by simp
next
  case (3 x y ys)
  then have x: "x \<noteq> []" "list_all asciiWordChar x"
    by (auto simp: list_all_iff isAsciiLower_classes(1))
  have sep: "'' '' @ join '' '' (y # ys) = [] \<or> \<not> asciiWordChar (hd ('' '' @ join '' '' (y # ys)))"
    by (simp add: asciiWordChar_space)
  from 3 have ih: "matchAllFrom (Plus asciiWordChar) 0 (Some (CHR '' '')) (join '' '' (y # ys)) = y # ys"
    by simp
  have "matchAllFrom (Plus asciiWordChar) 0 None (CHR '' '' # join '' '' (y # ys))
      = matchAllFrom (Plus asciiWordChar) 0 (Some (CHR '' '')) (join '' '' (y # ys))"
    using asciiWordChar_space by (rule matchAllFrom_separator)
  with ih have "matchAllFrom (Plus asciiWordChar) 0 None ('' '' @ join '' '' (y # ys)) = y # ys"
    by simp
  with matchAllFrom_word [OF x sep, of p None] show ?case
    by (simp only: join.simps)
qed

lemma words_lower:
  assumes "\<forall>w \<in> set ws. w \<noteq> [] \<and> list_all isAsciiLower w"
  shows "words (filter (\<lambda>c. \<not> rsApos c) (deburr (join '' '' ws))) = ws"
proof -
  from assms have l: "\<forall>c \<in> set (join '' '' ws). lowerOrSpace c"
    by (intro set_join_lower) simp
  then have d: "deburr (join '' '' ws) = join '' '' ws"
    by (intro deburr_id) (simp add: lowerOrSpace_classes(4))
  from l have f: "filter (\<lambda>c. \<not> rsApos c) (join '' '' ws) = join '' '' ws"
    by (simp add: lowerOrSpace_classes(5))
  from l have u: "\<not> hasUnicodeWord (join '' '' ws)"
    by (simp add: hasUnicodeWord_def rxTest_def testFrom_lower)
  from assms show ?thesis
    by (simp add: d f u words_def asciiWords_def matchAll_def reAsciiWord_def matchAllFrom_join)
qed

lemma toLowerCase_lower: "list_all isAsciiLower w \<Longrightarrow> toLowerCase w = w"
  by (induction w) (simp_all add: toLowerCase_def isAsciiLower_classes(2))

lemma camelReduce_lower:
  "\<forall>w \<in> set ws. list_all isAsciiLower w \<Longrightarrow>
   camelReduce result False ws = result @ concat (map upperFirst ws)"
  by (induction ws arbitrary: result) (simp_all add: toLowerCase_lower capitalize_def)

lemma upperFirst_append: "w \<noteq> [] \<Longrightarrow> upperFirst (w @ rest) = upperFirst w @ rest"
  by (cases w) (simp_all add: upperFirst_def)

lemma name_of_lower_words:
  assumes "\<forall>w \<in> set (segments @ [leaf]). w \<noteq> [] \<and> list_all isAsciiLower w"
  shows "getNameFromDeclaredTypeName \<lparr>fernFilepath = segments, DeclaredTypeName.name = leaf\<rparr>
     = concat (map upperFirst (segments @ [leaf]))"
proof -
  obtain t ts where ts: "segments @ [leaf] = t # ts" by (cases "segments @ [leaf]") auto
  with assms have t: "t \<noteq> []" "list_all isAsciiLower t"
    and rest: "\<forall>w \<in> set ts. list_all isAsciiLower w"
    by (metis list.set_intros(1), metis list.set_intros(1), metis list.set_intros(2))
  have "camelCase (join '' '' (segments @ [leaf])) = camelReduce [] True (t # ts)"
    using words_lower [OF assms] ts by (simp add: camelCase_def)
  also have "\<dots> = t @ concat (map upperFirst ts)"
    using camelReduce_lower [OF rest, of t] t(2) by (simp add: toLowerCase_lower)
  finally show ?thesis
    using t(1) ts by (simp add: getNameFromDeclaredTypeName_def upperFirst_append)
qed

section \<open>Schema names\<close>

text \<open>
  Claim C1. For every declared type name with the path segments \<open>segments\<close> and the leaf
  name \<open>leaf\<close>, the schema name is \<open>upperFirst(camelCase(phrase))\<close>, where \<open>phrase\<close> joins
  the segments and the leaf name with single spaces, and the reference is
  \<open>#/components/schemas/\<close> followed by the schema name. Segment boundaries are word
  boundaries: when the segments and the leaf name are non-empty words of letters \<open>a-z\<close>,
  the schema name is the concatenation of the capitalised words. So are the word
  boundaries inside a segment: \<open>api\<close>, \<open>user_id\<close> gives \<open>ApiUserId\<close>, and \<open>api\<close>,
  \<open>XMLHttpRequest\<close> gives \<open>ApiXmlHttpRequest\<close>. The path \<open>core\<close>, \<open>models\<close> with the
  leaf name \<open>user\<close> gives the schema name \<open>CoreModelsUser\<close> and the reference
  \<open>#/components/schemas/CoreModelsUser\<close>.
\<close>

theorem C1_schema_name:
  "getNameFromDeclaredTypeName \<lparr>fernFilepath = segments, DeclaredTypeName.name = leaf\<rparr>
     = upperFirst (camelCase (join '' '' (segments @ [leaf])))
   \<and> getReferenceFromDeclaredTypeName \<lparr>fernFilepath = segments, DeclaredTypeName.name = leaf\<rparr>
     = ''#/components/schemas/''
       @ getNameFromDeclaredTypeName \<lparr>fernFilepath = segments, DeclaredTypeName.name = leaf\<rparr>
   \<and> (list_all (\<lambda>w. w \<noteq> [] \<and> list_all isAsciiLower w) (segments @ [leaf]) \<longrightarrow>
        getNameFromDeclaredTypeName \<lparr>fernFilepath = segments, DeclaredTypeName.name = leaf\<rparr>
          = concat (map upperFirst (segments @ [leaf])))
   \<and> getNameFromDeclaredTypeName
         \<lparr>fernFilepath = [''api''], DeclaredTypeName.name = ''user_id''\<rparr> = ''ApiUserId''
   \<and> getNameFromDeclaredTypeName
         \<lparr>fernFilepath = [''api''], DeclaredTypeName.name = ''XMLHttpRequest''\<rparr>
       = ''ApiXmlHttpRequest''
   \<and> getNameFromDeclaredTypeName
         \<lparr>fernFilepath = [''core'', ''models''], DeclaredTypeName.name = ''user''\<rparr>
       = ''CoreModelsUser''
   \<and> getReferenceFromDeclaredTypeName
         \<lparr>fernFilepath = [''core'', ''models''], DeclaredTypeName.name = ''user''\<rparr>
       = ''#/components/schemas/CoreModelsUser''"
proof -
  have 1: "getNameFromDeclaredTypeName \<lparr>fernFilepath = segments, DeclaredTypeName.name = leaf\<rparr>
     = upperFirst (camelCase (join '' '' (segments @ [leaf])))"
    by (simp add: getNameFromDeclaredTypeName_def)
  have 2: "getReferenceFromDeclaredTypeName \<lparr>fernFilepath = segments, DeclaredTypeName.name = leaf\<rparr>
     = ''#/components/schemas/''
       @ getNameFromDeclaredTypeName \<lparr>fernFilepath = segments, DeclaredTypeName.name = leaf\<rparr>"
    by (simp add: getReferenceFromDeclaredTypeName_def)
  have 3: "list_all (\<lambda>w. w \<noteq> [] \<and> list_all isAsciiLower w) (segments @ [leaf]) \<longrightarrow>
        getNameFromDeclaredTypeName \<lparr>fernFilepath = segments, DeclaredTypeName.name = leaf\<rparr>
          = concat (map upperFirst (segments @ [leaf]))"
    using name_of_lower_words [of segments leaf] by (simp only: list_all_iff) blast
  have 4: "getNameFromDeclaredTypeName
         \<lparr>fernFilepath = [''api''], DeclaredTypeName.name = ''user_id''\<rparr> = ''ApiUserId''"
    by code_simp
  have 5: "getNameFromDeclaredTypeName
         \<lparr>fernFilepath = [''api''], DeclaredTypeName.name = ''XMLHttpRequest''\<rparr>
       = ''ApiXmlHttpRequest''"
    by code_simp
  have 6: "getNameFromDeclaredTypeName
         \<lparr>fernFilepath = [''core'', ''models''], DeclaredTypeName.name = ''user''\<rparr>
       = ''CoreModelsUser''"
    by code_simp
  have 7: "getReferenceFromDeclaredTypeName
         \<lparr>fernFilepath = [''core'', ''models''], DeclaredTypeName.name = ''user''\<rparr>
       = ''#/components/schemas/CoreModelsUser''"
    by code_simp
  from 1 2 3 4 5 6 7 show ?thesis by blast
qed

text \<open>The words \<open>core\<close>, \<open>models\<close>, \<open>user\<close> are capitalised and concatenated.\<close>

theorem C1_schema_name_witness:
  "getNameFromDeclaredTypeName
     \<lparr>fernFilepath = [''core'', ''models''], DeclaredTypeName.name = ''user''\<rparr>
     = concat (map upperFirst [''core'', ''models'', ''user''])
   \<and> concat (map upperFirst [''core'', ''models'', ''user'']) = ''CoreModelsUser''"
proof -
  have l: "list_all (\<lambda>w. w \<noteq> [] \<and> list_all isAsciiLower w) ([''core'', ''models''] @ [''user''])"
    by code_simp
  have u: "concat (map upperFirst [''core'', ''models'', ''user'']) = ''CoreModelsUser''"
    by code_simp
  from C1_schema_name [of "[''core'', ''models'']" "''user''"] l
  have "getNameFromDeclaredTypeName
     \<lparr>fernFilepath = [''core'', ''models''], DeclaredTypeName.name = ''user''\<rparr>
     = concat (map upperFirst ([''core'', ''models''] @ [''user'']))"
    by blast
  with u show ?thesis by simp
qed

text \<open>
  Claim C9, as amended. The name resolution is a function from declared type names to
  strings: it has no failure mode. The name it returns is not empty whenever a path
  segment or the leaf name contains a letter \<open>a-z\<close>, \<open>A-Z\<close> or a digit.
\<close>

theorem C9_name_nonempty:
  assumes "\<exists>c \<in> set (concat (fernFilepath d @ [DeclaredTypeName.name d])). isAlnum c"
  shows "getNameFromDeclaredTypeName d \<noteq> []"
proof -
  from assms obtain x c where "x \<in> set (fernFilepath d @ [DeclaredTypeName.name d])"
    and "c \<in> set x" and c: "isAlnum c"
    by auto
  then have "c \<in> set (join '' '' (fernFilepath d @ [DeclaredTypeName.name d]))"
    using set_join by blast
  with c have "camelCase (join '' '' (fernFilepath d @ [DeclaredTypeName.name d])) \<noteq> []"
    by (intro camelCase_nonempty) blast
  then show ?thesis
    by (simp add: getNameFromDeclaredTypeName_def upperFirst_nonempty)
qed

theorem C9_name_nonempty_witness:
  "getNameFromDeclaredTypeName \<lparr>fernFilepath = [], DeclaredTypeName.name = ''user''\<rparr> \<noteq> []
   \<and> getNameFromDeclaredTypeName \<lparr>fernFilepath = [], DeclaredTypeName.name = ''user''\<rparr> = ''User''"
proof -
  have "\<exists>c \<in> set (concat (fernFilepath \<lparr>fernFilepath = [], DeclaredTypeName.name = ''user''\<rparr>
      @ [DeclaredTypeName.name \<lparr>fernFilepath = [], DeclaredTypeName.name = ''user''\<rparr>])). isAlnum c"
    by code_simp
  from C9_name_nonempty [OF this]
  have 1: "getNameFromDeclaredTypeName \<lparr>fernFilepath = [], DeclaredTypeName.name = ''user''\<rparr> \<noteq> []" .
  have 2: "getNameFromDeclaredTypeName \<lparr>fernFilepath = [], DeclaredTypeName.name = ''user''\<rparr> = ''User''"
    by code_simp
  from 1 2 show ?thesis by simp
qed

text \<open>
  The claim as it was stated does not hold: the leaf name is always present, but it need
  not hold a word. Under an empty path the leaf names \<open>""\<close> and \<open>"_"\<close> resolve to the
  empty string.
\<close>

theorem C9_counterexample:
  "getNameFromDeclaredTypeName \<lparr>fernFilepath = [], DeclaredTypeName.name = ''''\<rparr> = ''''
   \<and> getNameFromDeclaredTypeName \<lparr>fernFilepath = [], DeclaredTypeName.name = ''_''\<rparr> = ''''"
  by code_simp

end
